theory Spec2Isabelle
  imports Complex_Main "HOL-Library.Multiset" "HOL-Library.AList"
begin

section \<open>Data model of the Model Linker dialog\<close>

text \<open>
  The development embeds the client of the Model Linker (class \<open>LinkerManagerDialog\<close>,
  latest revision of \<open>web/linker.js\<close>; of the oldest revision, \<open>resolveModel\<close>). JSON objects received from the backend are records;
  a property that the code guards with \<open>||\<close> or \<open>?.\<close> is an \<open>option\<close>, \<open>None\<close> standing
  for \<open>undefined\<close>/\<open>null\<close>. Confidence values are integers.
\<close>

record local_model =
  path :: string
  relative_path :: "string option"
  model_filename :: "string option"

record match =
  confidence :: int
  filename :: "string option"
  model :: "local_model option"

text \<open>The fields every reference to a node widget carries; a missing-model entry and a
  resolution both carry them as well.\<close>

record node_ref =
  node_id :: nat
  widget_index :: nat
  category :: "string option"
  subgraph_id :: "string option"
  is_top_level :: bool

record download_source =
  url :: "string option"
  source_filename :: "string option"   \<comment> \<open>\<open>download_source.filename\<close>\<close>
  directory :: "string option"

record missing_model = node_ref +
  original_path :: "string option"
  matches :: "match list option"
  all_node_refs :: "node_ref list option"
  download_source :: "download_source option"

record resolution = node_ref +
  resolved_path :: string
  resolved_model :: local_model

record analyze_data =
  missing_models :: "missing_model list option"
  total_missing :: "nat option"

section \<open>Array.prototype.sort\<close>

text \<open>
  \<open>Array.prototype.sort\<close> with a comparator is stable; for a consistent comparator its result
  is the one stably sorted permutation, whatever algorithm the engine runs. It is modelled
  by stable insertion: an element goes in front of the first later element \<open>y\<close> with
  \<open>cmp x y \<le> 0\<close>.
\<close>

fun insort_by :: "('a \<Rightarrow> 'a \<Rightarrow> int) \<Rightarrow> 'a \<Rightarrow> 'a list \<Rightarrow> 'a list" where
  "insort_by cmp x [] = [x]"
| "insort_by cmp x (y # ys) = (if cmp x y \<le> 0 then x # y # ys else y # insort_by cmp x ys)"

definition js_sort :: "('a \<Rightarrow> 'a \<Rightarrow> int) \<Rightarrow> 'a list \<Rightarrow> 'a list" where
  "js_sort cmp xs = foldr (insort_by cmp) xs []"

section \<open>Ordering of the displayed entries\<close>

definition or_empty :: "'a list option \<Rightarrow> 'a list" where
  \<comment> \<open>\<open>x || []\<close>\<close>
  "or_empty xo = (case xo of None \<Rightarrow> [] | Some xs \<Rightarrow> xs)"

definition filter70 :: "match list \<Rightarrow> match list" where
  \<comment> \<open>\<open>ms.filter(m => m.confidence >= 70)\<close>\<close>
  "filter70 ms = filter (\<lambda>m. confidence m \<ge> 70) ms"

definition has100 :: "missing_model \<Rightarrow> bool" where
  \<comment> \<open>\<open>aFiltered.some(m => m.confidence === 100)\<close>\<close>
  "has100 a = list_ex (\<lambda>m. confidence m = 100) (filter70 (or_empty (matches a)))"

definition bestConf :: "missing_model \<Rightarrow> int" where
  \<comment> \<open>\<open>aFiltered.length > 0 ? Math.max(...aFiltered.map(m => m.confidence)) : 0\<close>\<close>
  "bestConf a =
     (let aFiltered = filter70 (or_empty (matches a))
      in if length aFiltered > 0 then Max (set (map confidence aFiltered)) else 0)"

definition compareMissing :: "missing_model \<Rightarrow> missing_model \<Rightarrow> int" where
  "compareMissing a b =
     (if has100 a \<and> \<not> has100 b then -1
      else if \<not> has100 a \<and> has100 b then 1
      else bestConf b - bestConf a)"

definition sortedMissingModels :: "missing_model list \<Rightarrow> missing_model list" where
  "sortedMissingModels missingModels = js_sort compareMissing missingModels"

section \<open>Rendering one entry: the Local Matches column\<close>

text \<open>
  \<open>renderMissingModel\<close> builds one card. Its left column lists the candidates that get a
  Link button (the click handlers attached in \<open>displayMissingModels\<close> recompute the same
  list), an optional note counting the candidates below 100, or one of two notices.
\<close>

definition perfectMatches :: "match list \<Rightarrow> match list" where
  "perfectMatches allMatches = filter (\<lambda>m. confidence m = 100) (filter70 allMatches)"

definition otherMatches :: "match list \<Rightarrow> match list" where
  "otherMatches allMatches =
     filter (\<lambda>m. confidence m < 100 \<and> confidence m \<ge> 70) (filter70 allMatches)"

definition compareDesc :: "match \<Rightarrow> match \<Rightarrow> int" where
  \<comment> \<open>\<open>(a, b) => b.confidence - a.confidence\<close>\<close>
  "compareDesc a b = confidence b - confidence a"

definition compareMatches :: "match \<Rightarrow> match \<Rightarrow> int" where
  "compareMatches a b =
     (if confidence a = 100 \<and> confidence b \<noteq> 100 then -1
      else if confidence a \<noteq> 100 \<and> confidence b = 100 then 1
      else confidence b - confidence a)"

definition matchesToShow :: "match list \<Rightarrow> match list" where
  "matchesToShow allMatches =
     (if length (perfectMatches allMatches) > 0 then perfectMatches allMatches
      else take 5 (js_sort compareDesc (otherMatches allMatches)))"

definition sortedMatches :: "match list \<Rightarrow> match list" where
  "sortedMatches allMatches = js_sort compareMatches (matchesToShow allMatches)"

datatype local_matches =
    MatchRows "match list" "nat option"
      \<comment> \<open>rows with a Link button each; the number in "n other matches below 100%"\<close>
  | NoMatchesAbove70
  | NoLocalMatchesFound

definition renderMissingModel :: "missing_model \<Rightarrow> local_matches" where
  "renderMissingModel missing =
     (let allMatches = or_empty (matches missing);
          filteredMatches = filter70 allMatches
      in if length filteredMatches > 0 then
           MatchRows (sortedMatches allMatches)
             (if length (perfectMatches allMatches) > 0 \<and> length (otherMatches allMatches) > 0
              then Some (length (otherMatches allMatches)) else None)
         else if length allMatches > 0 \<and> length filteredMatches = 0 then NoMatchesAbove70
         else NoLocalMatchesFound)"

datatype display =
    AllAvailable
  | DownloadsInProgress nat
  | MissingCards "(missing_model \<times> local_matches) list"
  | NoWorkflowContent
  | ErrorContent

definition displayMissingModels :: "nat \<Rightarrow> analyze_data \<Rightarrow> display" where
  \<comment> \<open>the first argument is \<open>Object.keys(this.activeDownloads).length\<close>\<close>
  "displayMissingModels activeCount data =
     (let missingModels = or_empty (missing_models data);
          totalMissing = (case total_missing data of None \<Rightarrow> 0 | Some n \<Rightarrow> n)
      in if totalMissing = 0 \<and> activeCount = 0 then AllAvailable
         else if totalMissing = 0 \<and> activeCount > 0 then DownloadsInProgress activeCount
         else MissingCards (map (\<lambda>missing. (missing, renderMissingModel missing))
                                (sortedMissingModels missingModels)))"

section \<open>The client state and the backend interface\<close>

text \<open>
  The workflow is analysed and patched through two requests of the backend. A request that
  is not answered with \<open>response.ok\<close>, or whose \<open>fetch\<close> throws, is the \<open>Failed\<close> answer.
  Every request the client sends, those that start or cancel a download included, is
  appended to \<open>calls\<close>; every \<open>setTimeout\<close> is appended to \<open>timers\<close>.
\<close>

datatype 'w api_call =
    Analyze 'w
  | Resolve 'w "resolution list"
  | StartDownload string string string   \<comment> \<open>url, filename, category\<close>
  | CancelDownload string

datatype analyze_response = AnalyzeFailed | AnalyzeOk analyze_data

datatype 'w resolve_response =
    ResolveFailed
  | ResolveRejected "string option"   \<comment> \<open>\<open>success: false\<close> with \<open>error\<close>\<close>
  | ResolveSuccess 'w                 \<comment> \<open>\<open>success: true\<close> with \<open>workflow\<close>\<close>

record 'w server =
  analyze :: "'w \<Rightarrow> analyze_response"
  resolve :: "'w \<Rightarrow> resolution list \<Rightarrow> 'w resolve_response"

datatype notification =
    NoResolvedModelSelected
  | NoWorkflowLoaded
  | ModelLinked string nat            \<comment> \<open>model name, number of references\<close>
  | FailedToResolveModel string
  | ErrorResolvingModel
  | NoPerfectMatches
  | LinkedModels nat
  | FailedToResolveModels string
  | ErrorAutoResolving
  | AutoResolved string nat
  | Downloaded string
  | DownloadCancelled
  | NoDownloadUrl
  | DownloadFailed string
  | FailedToCancelDownload
  | CancellingDownloads nat
  | NoModelsToDownload
  | StartingDownloads nat
  | ErrorStartingDownloads

datatype timer =
    PollTimer string nat                       \<comment> \<open>\<open>pollDownloadProgress(downloadId)\<close> after ms\<close>
  | AutoResolveTimer missing_model string nat  \<comment> \<open>\<open>autoResolveAfterDownload(missing, filename)\<close>\<close>

record 'w client =
  app_graph :: "'w option"       \<comment> \<open>\<open>app.graph.serialize()\<close>; \<open>None\<close> when there is no graph\<close>
  activeDownloads :: "(string \<times> missing_model) list"
  timers :: "timer list"
  calls :: "'w api_call list"
  notifications :: "notification list"
  content :: "display option"

definition showNotification :: "notification \<Rightarrow> 'w client \<Rightarrow> 'w client" where
  "showNotification n st = st\<lparr>notifications := notifications st @ [n]\<rparr>"

definition getCurrentWorkflow :: "'w client \<Rightarrow> 'w option" where
  "getCurrentWorkflow st = app_graph st"

definition updateWorkflowInComfyUI :: "'w \<Rightarrow> 'w client \<Rightarrow> 'w client" where
  \<comment> \<open>\<open>app.graph.configure(workflow)\<close>; nothing happens without \<open>app.graph\<close>\<close>
  "updateWorkflowInComfyUI workflow st =
     (case app_graph st of None \<Rightarrow> st | Some _ \<Rightarrow> st\<lparr>app_graph := Some workflow\<rparr>)"

definition loadWorkflowData :: "'w server \<Rightarrow> 'w option \<Rightarrow> 'w client \<Rightarrow> 'w client" where
  "loadWorkflowData srv workflow st =
     (case (case workflow of None \<Rightarrow> getCurrentWorkflow st | Some w \<Rightarrow> Some w) of
        None \<Rightarrow> st\<lparr>content := Some NoWorkflowContent\<rparr>
      | Some w \<Rightarrow>
          (let st1 = st\<lparr>calls := calls st @ [Analyze w]\<rparr>
           in case analyze srv w of
                AnalyzeFailed \<Rightarrow> st1\<lparr>content := Some ErrorContent\<rparr>
              | AnalyzeOk data \<Rightarrow>
                  st1\<lparr>content := Some (displayMissingModels (length (activeDownloads st1)) data)\<rparr>))"

section \<open>Planning resolutions\<close>

definition mkResolution :: "local_model \<Rightarrow> 'a node_ref_scheme \<Rightarrow> resolution" where
  "mkResolution resolvedModel ref =
     \<lparr>node_id = node_id ref, widget_index = widget_index ref, category = category ref,
      subgraph_id = subgraph_id ref, is_top_level = is_top_level ref,
      resolved_path = path resolvedModel, resolved_model = resolvedModel\<rparr>"

definition nodeRefs :: "missing_model \<Rightarrow> node_ref list" where
  \<comment> \<open>\<open>missing.all_node_refs || [missing]\<close>\<close>
  "nodeRefs missing =
     (case all_node_refs missing of None \<Rightarrow> [node_ref.truncate missing] | Some refs \<Rightarrow> refs)"

definition or_unknown :: "string option \<Rightarrow> string" where
  \<comment> \<open>\<open>data.error || 'Unknown error'\<close>\<close>
  "or_unknown e = (case e of None \<Rightarrow> ''Unknown error''
                   | Some s \<Rightarrow> if s = [] then ''Unknown error'' else s)"

definition modelName :: "local_model \<Rightarrow> string" where
  \<comment> \<open>\<open>resolvedModel.relative_path || resolvedModel.filename || 'model'\<close>\<close>
  "modelName rm =
     (case relative_path rm of
        Some s \<Rightarrow> if s \<noteq> [] then s
                  else (case model_filename rm of Some f \<Rightarrow> if f \<noteq> [] then f else ''model''
                        | None \<Rightarrow> ''model'')
      | None \<Rightarrow> (case model_filename rm of Some f \<Rightarrow> if f \<noteq> [] then f else ''model''
                 | None \<Rightarrow> ''model''))"

definition resolveModel ::
  "'w server \<Rightarrow> missing_model \<Rightarrow> local_model option \<Rightarrow> 'w client \<Rightarrow> 'w client" where
  "resolveModel srv missing resolvedModel st =
     (case resolvedModel of
        None \<Rightarrow> showNotification NoResolvedModelSelected st
      | Some rm \<Rightarrow>
          (case getCurrentWorkflow st of
             None \<Rightarrow> showNotification NoWorkflowLoaded st
           | Some workflow \<Rightarrow>
               (let resolutions = map (mkResolution rm) (nodeRefs missing);
                    st1 = st\<lparr>calls := calls st @ [Resolve workflow resolutions]\<rparr>
                in case resolve srv workflow resolutions of
                     ResolveFailed \<Rightarrow> showNotification ErrorResolvingModel st1
                   | ResolveRejected err \<Rightarrow>
                       showNotification (FailedToResolveModel (or_unknown err)) st1
                   | ResolveSuccess w' \<Rightarrow>
                       loadWorkflowData srv (Some w')
                         (showNotification (ModelLinked (modelName rm) (length resolutions))
                            (updateWorkflowInComfyUI w' st1)))))"

text \<open>
  The oldest of the three revisions in the sources (the first \<open>LinkerManagerDialog\<close> of
  \<open>web/linker.js\<close>) has its own \<open>resolveModel\<close>, "Resolve a single model": it does not
  know \<open>all_node_refs\<close>. Its dialog does not count the active downloads either.
\<close>

definition displayMissingModels_rev1 :: "analyze_data \<Rightarrow> display" where
  "displayMissingModels_rev1 data =
     (let missingModels = or_empty (missing_models data);
          totalMissing = (case total_missing data of None \<Rightarrow> 0 | Some n \<Rightarrow> n)
      in if totalMissing = 0 then AllAvailable
         else MissingCards (map (\<lambda>missing. (missing, renderMissingModel missing))
                                (sortedMissingModels missingModels)))"

definition loadWorkflowData_rev1 :: "'w server \<Rightarrow> 'w option \<Rightarrow> 'w client \<Rightarrow> 'w client" where
  "loadWorkflowData_rev1 srv workflow st =
     (case (case workflow of None \<Rightarrow> getCurrentWorkflow st | Some w \<Rightarrow> Some w) of
        None \<Rightarrow> st\<lparr>content := Some NoWorkflowContent\<rparr>
      | Some w \<Rightarrow>
          (let st1 = st\<lparr>calls := calls st @ [Analyze w]\<rparr>
           in case analyze srv w of
                AnalyzeFailed \<Rightarrow> st1\<lparr>content := Some ErrorContent\<rparr>
              | AnalyzeOk data \<Rightarrow> st1\<lparr>content := Some (displayMissingModels_rev1 data)\<rparr>))"

definition resolveModel_rev1 ::
  "'w server \<Rightarrow> missing_model \<Rightarrow> local_model option \<Rightarrow> 'w client \<Rightarrow> 'w client" where
  "resolveModel_rev1 srv missing resolvedModel st =
     (case resolvedModel of
        None \<Rightarrow> showNotification NoResolvedModelSelected st
      | Some rm \<Rightarrow>
          (case getCurrentWorkflow st of
             None \<Rightarrow> showNotification NoWorkflowLoaded st
           | Some workflow \<Rightarrow>
               (let resolution = mkResolution rm missing;
                    st1 = st\<lparr>calls := calls st @ [Resolve workflow [resolution]]\<rparr>
                in case resolve srv workflow [resolution] of
                     ResolveFailed \<Rightarrow> showNotification ErrorResolvingModel st1
                   | ResolveRejected err \<Rightarrow>
                       showNotification (FailedToResolveModel (or_unknown err)) st1
                   | ResolveSuccess w' \<Rightarrow>
                       loadWorkflowData_rev1 srv (Some w')
                         (showNotification (ModelLinked (modelName rm) 1)
                            (updateWorkflowInComfyUI w' st1)))))"

definition perfectResolutions :: "missing_model list \<Rightarrow> resolution list" where
  \<comment> \<open>the loop "Collect all 100% matches" of \<open>autoResolve100Percent\<close>\<close>
  "perfectResolutions missingModels =
     concat (map (\<lambda>missing.
        case find (\<lambda>m. confidence m = 100) (or_empty (matches missing)) of
          None \<Rightarrow> []
        | Some perfectMatch \<Rightarrow>
            (case model perfectMatch of None \<Rightarrow> []
             | Some mdl \<Rightarrow> [mkResolution mdl missing])) missingModels)"

definition autoResolve100Percent :: "'w server \<Rightarrow> 'w client \<Rightarrow> 'w option \<times> 'w client" where
  "autoResolve100Percent srv st =
     (case getCurrentWorkflow st of
        None \<Rightarrow> (None, showNotification NoWorkflowLoaded st)
      | Some workflow \<Rightarrow>
          (let st1 = st\<lparr>calls := calls st @ [Analyze workflow]\<rparr>
           in case analyze srv workflow of
                AnalyzeFailed \<Rightarrow> (None, showNotification ErrorAutoResolving st1)
              | AnalyzeOk analyzeData \<Rightarrow>
                  (let resolutions = perfectResolutions (or_empty (missing_models analyzeData))
                   in if length resolutions = 0 then (None, showNotification NoPerfectMatches st1)
                      else
                        (let st2 = st1\<lparr>calls := calls st1 @ [Resolve workflow resolutions]\<rparr>
                         in case resolve srv workflow resolutions of
                              ResolveFailed \<Rightarrow> (None, showNotification ErrorAutoResolving st2)
                            | ResolveRejected err \<Rightarrow>
                                (None, showNotification (FailedToResolveModels (or_unknown err)) st2)
                            | ResolveSuccess w' \<Rightarrow>
                                (Some w',
                                 loadWorkflowData srv (Some w')
                                   (showNotification (LinkedModels (length resolutions))
                                      (updateWorkflowInComfyUI w' st2)))))))"

section \<open>Downloads\<close>

text \<open>
  \<open>activeDownloads\<close> maps a download id to the entry being downloaded (the DOM handles kept
  beside it are left out). One call of \<open>pollDownloadProgress\<close> is one step: it takes the
  answer of the progress request, \<open>ProgressFailed\<close> when the request throws or is not ok,
  and returns the new state. The callbacks it registers with \<open>setTimeout\<close> are recorded in
  \<open>timers\<close>; \<open>fireTimer\<close> runs one of them.
\<close>

record progress =
  status :: string
  progress_filename :: string

datatype progress_response = ProgressFailed | ProgressOk progress

definition pollDownloadProgress :: "progress_response \<Rightarrow> string \<Rightarrow> 'w client \<Rightarrow> 'w client" where
  "pollDownloadProgress response downloadId st =
     (case map_of (activeDownloads st) downloadId of
        None \<Rightarrow> st
      | Some missing \<Rightarrow>
          (case response of
             ProgressFailed \<Rightarrow>
               st\<lparr>activeDownloads := AList.delete downloadId (activeDownloads st)\<rparr>
           | ProgressOk progress \<Rightarrow>
               if status progress = ''downloading'' \<or> status progress = ''starting'' then
                 st\<lparr>timers := timers st @ [PollTimer downloadId 1000]\<rparr>
               else if status progress = ''completed'' then
                 (showNotification (Downloaded (progress_filename progress))
                    (st\<lparr>activeDownloads := AList.delete downloadId (activeDownloads st)\<rparr>))
                 \<lparr>timers := timers st @ [AutoResolveTimer missing (progress_filename progress) 500]\<rparr>
               else if status progress = ''error'' then
                 st\<lparr>activeDownloads := AList.delete downloadId (activeDownloads st)\<rparr>
               else if status progress = ''cancelled'' then
                 showNotification DownloadCancelled
                   (st\<lparr>activeDownloads := AList.delete downloadId (activeDownloads st)\<rparr>)
               else
                 st\<lparr>timers := timers st @ [PollTimer downloadId 500]\<rparr>))"

definition isTerminal :: "string \<Rightarrow> bool" where
  "isTerminal s = (s = ''completed'' \<or> s = ''error'' \<or> s = ''cancelled'')"

definition observedTerminal :: "progress_response \<Rightarrow> bool" where
  \<comment> \<open>the poll got an answer and its status is one of the three final ones\<close>
  "observedTerminal response =
     (case response of ProgressFailed \<Rightarrow> False | ProgressOk p \<Rightarrow> isTerminal (status p))"

definition pollsFor :: "string \<Rightarrow> timer list \<Rightarrow> timer list" where
  "pollsFor downloadId ts =
     filter (\<lambda>t. case t of PollTimer d _ \<Rightarrow> d = downloadId | AutoResolveTimer _ _ _ \<Rightarrow> False) ts"

definition afterLast :: "char \<Rightarrow> string \<Rightarrow> string" where
  \<comment> \<open>\<open>s.split(sep).pop()\<close>\<close>
  "afterLast sep s = rev (takeWhile (\<lambda>c. c \<noteq> sep) (rev s))"

definition missingFilename :: "missing_model \<Rightarrow> string" where
  \<comment> \<open>\<open>m.original_path?.split('/').pop()?.split('\\').pop() || ''\<close>\<close>
  "missingFilename m =
     (case original_path m of None \<Rightarrow> []
      | Some p \<Rightarrow> afterLast (CHR 0x5C) (afterLast (CHR ''/'') p))"


datatype download_response = DownloadRejected string | DownloadStarted string
  \<comment> \<open>the error message of a request that failed, or the \<open>download_id\<close>\<close>

definition orString :: "string option \<Rightarrow> string \<Rightarrow> string" where
  \<comment> \<open>\<open>a || b\<close> on strings\<close>
  "orString a b = (case a of None \<Rightarrow> b | Some s \<Rightarrow> if s = [] then b else s)"

definition startTracking :: "string \<Rightarrow> missing_model \<Rightarrow> 'w client \<Rightarrow> 'w client" where
  \<comment> \<open>\<open>this.activeDownloads[downloadId] = {missing, ...}; this.pollDownloadProgress(downloadId)\<close>:
      the first poll starts at once, recorded as a timer without delay\<close>
  "startTracking downloadId missing st =
     st\<lparr>activeDownloads := AList.update downloadId missing (activeDownloads st),
        timers := timers st @ [PollTimer downloadId 0]\<rparr>"

definition downloadModel :: "download_response \<Rightarrow> missing_model \<Rightarrow> 'w client \<Rightarrow> 'w client" where
  "downloadModel response missing st =
     (case download_source missing of
        None \<Rightarrow> showNotification NoDownloadUrl st
      | Some source \<Rightarrow>
          if orString (url source) [] = [] then showNotification NoDownloadUrl st
          else
            (let originalFilename = orString (Some (missingFilename missing)) ''model.safetensors'';
                 downloadFilename = orString (source_filename source) originalFilename;
                 targetCategory =
                   orString (directory source) (orString (category missing) ''checkpoints'');
                 st1 = st\<lparr>calls := calls st @
                          [StartDownload (orString (url source) []) downloadFilename
                             targetCategory]\<rparr>
             in case response of
                  DownloadRejected message \<Rightarrow> showNotification (DownloadFailed message) st1
                | DownloadStarted downloadId \<Rightarrow> startTracking downloadId missing st1))"

definition downloadFromSearch ::
  "download_response \<Rightarrow> missing_model \<Rightarrow> string \<Rightarrow> string \<Rightarrow> string \<Rightarrow> 'w client \<Rightarrow> 'w client"
  where
  "downloadFromSearch response missing searchUrl downloadFilename targetCategory st =
     (let st1 = st\<lparr>calls := calls st @
                   [StartDownload searchUrl downloadFilename targetCategory]\<rparr>
      in case response of
           DownloadRejected message \<Rightarrow> showNotification (DownloadFailed message) st1
         | DownloadStarted downloadId \<Rightarrow> startTracking downloadId missing st1)"

definition downloadAllMissing ::
  "'w server \<Rightarrow> (missing_model \<Rightarrow> download_response) \<Rightarrow> 'w client \<Rightarrow> 'w client" where
  \<comment> \<open>the second argument gives the answer to the download request of each entry; the
      downloads are started one after the other\<close>
  "downloadAllMissing srv responses st =
     (case getCurrentWorkflow st of
        None \<Rightarrow> showNotification NoWorkflowLoaded st
      | Some workflow \<Rightarrow>
          (let st1 = st\<lparr>calls := calls st @ [Analyze workflow]\<rparr>
           in case analyze srv workflow of
                AnalyzeFailed \<Rightarrow> showNotification ErrorStartingDownloads st1
              | AnalyzeOk analyzeData \<Rightarrow>
                  (let toDownload =
                         filter (\<lambda>missing.
                            \<not> (length (filter (\<lambda>m. confidence m = 100)
                                         (or_empty (matches missing))) > 0 \<or>
                               (case download_source missing of None \<Rightarrow> True
                                | Some source \<Rightarrow> orString (url source) [] = [])))
                           (or_empty (missing_models analyzeData))
                   in if length toDownload = 0 then showNotification NoModelsToDownload st1
                      else fold (\<lambda>missing. downloadModel (responses missing) missing) toDownload
                             (showNotification (StartingDownloads (length toDownload)) st1))))"

definition cancelDownload :: "bool \<Rightarrow> string \<Rightarrow> 'w client \<Rightarrow> 'w client" where
  \<comment> \<open>the first argument tells whether the cancel request was answered with \<open>response.ok\<close>\<close>
  "cancelDownload ok downloadId st =
     (let st1 = st\<lparr>calls := calls st @ [CancelDownload downloadId]\<rparr>
      in if ok then st1 else showNotification FailedToCancelDownload st1)"

definition cancelAllDownloads :: "'w client \<Rightarrow> 'w client" where
  "cancelAllDownloads st =
     (let downloadIds = map fst (activeDownloads st)
      in if length downloadIds = 0 then st
         else (showNotification (CancellingDownloads (length downloadIds)) st)
                \<lparr>calls := calls st @ map CancelDownload downloadIds\<rparr>)"





definition resolveCalls :: "'w api_call list \<Rightarrow> ('w \<times> resolution list) list" where
  "resolveCalls cs = concat (map (\<lambda>c. case c of Resolve w rs \<Rightarrow> [(w, rs)] | _ \<Rightarrow> []) cs)"

section \<open>formatBytes\<close>

text \<open>
  The result string is \<open>number + ' ' + unit\<close>; the model returns the two parts. \<open>Math.log\<close>,
  the division and \<open>Math.pow\<close> are taken over the reals; \<open>toFixed(1)\<close> rounds to tenths, the
  larger neighbour on a tie. Reading \<open>sizes[i]\<close> outside the array gives \<open>undefined\<close>, which
  the concatenation prints as the text \<open>undefined\<close>.
\<close>

definition sizes :: "string list" where
  "sizes = [''B'', ''KB'', ''MB'', ''GB'']"

definition toFixed1 :: "real \<Rightarrow> real" where
  "toFixed1 x = of_int \<lfloor>x * 10 + 1 / 2\<rfloor> / 10"

definition sizeIndex :: "nat \<Rightarrow> int" where
  \<comment> \<open>\<open>Math.floor(Math.log(bytes) / Math.log(k))\<close>\<close>
  "sizeIndex bytes = \<lfloor>ln (real bytes) / ln 1024\<rfloor>"

definition sizeUnit :: "int \<Rightarrow> string" where
  \<comment> \<open>\<open>sizes[i]\<close> as printed\<close>
  "sizeUnit i = (if 0 \<le> i \<and> i < int (length sizes) then sizes ! nat i else ''undefined'')"

definition formatBytes :: "nat \<Rightarrow> real \<times> string" where
  "formatBytes bytes =
     (if bytes = 0 then (0, ''B'')
      else (let i = sizeIndex bytes
            in (toFixed1 (real bytes / 1024 powr of_int i), sizeUnit i)))"

section \<open>The Graph Patcher\<close>

text \<open>
  Modelled from the spec: the Graph Patcher \<open>apply(graph, patches)\<close> and the \<open>resolve\<close>
  operation built on it run in the backend, which is not among the sources. A graph maps
  a node (its id and the subgraph definition holding it, \<open>None\<close> at top level) to its widget
  values; a patch is a resolution. A patch whose node or widget slot is not in the graph
  rejects the whole batch with an error that identifies the reference.
\<close>

type_synonym graph = "nat \<times> string option \<Rightarrow> string list option"

datatype patch_error = UnknownReference nat nat "string option"

definition patchKey :: "resolution \<Rightarrow> nat \<times> string option" where
  "patchKey p = (node_id p, subgraph_id p)"

definition targetExists :: "graph \<Rightarrow> resolution \<Rightarrow> bool" where
  \<comment> \<open>Modelled from the spec: the node, in its subgraph, and the widget slot of a patch
      still exist in the supplied graph\<close>
  "targetExists g p =
     (case g (patchKey p) of None \<Rightarrow> False | Some ws \<Rightarrow> widget_index p < length ws)"

definition patchOne :: "graph \<Rightarrow> resolution \<Rightarrow> graph" where
  \<comment> \<open>Modelled from the spec: one patch \<open>(nodeId, widgetIndex, subgraphId, newPath)\<close> written
      into the graph\<close>
  "patchOne g p =
     (case g (patchKey p) of None \<Rightarrow> g
      | Some ws \<Rightarrow> g(patchKey p \<mapsto> ws[widget_index p := resolved_path p]))"

definition applyPatches :: "graph \<Rightarrow> resolution list \<Rightarrow> patch_error + graph" where
  \<comment> \<open>Modelled from the spec: \<open>apply(graph, patches)\<close> of the Graph Patcher; a patch whose
      reference is not in the graph rejects the whole batch\<close>
  "applyPatches g patches =
     (case find (\<lambda>p. \<not> targetExists g p) patches of
        Some p \<Rightarrow> Inl (UnknownReference (node_id p) (widget_index p) (subgraph_id p))
      | None \<Rightarrow> Inr (foldl patchOne g patches))"

fun showNat :: "nat \<Rightarrow> string" where
  "showNat n = (if n < 10 then [''0123456789'' ! n]
                else showNat (n div 10) @ [''0123456789'' ! (n mod 10)])"

declare showNat.simps [simp del]

definition describeError :: "patch_error \<Rightarrow> string" where
  \<comment> \<open>Modelled from the spec: the named error, as the text of the \<open>error\<close> field\<close>
  "describeError e =
     (case e of UnknownReference n w sg \<Rightarrow>
        ''Unknown reference: node '' @ showNat n @ '' widget '' @ showNat w @
        (case sg of None \<Rightarrow> [] | Some s \<Rightarrow> '' in subgraph '' @ s))"

definition resolveEndpoint :: "graph \<Rightarrow> resolution list \<Rightarrow> graph resolve_response" where
  \<comment> \<open>Modelled from the spec: the \<open>resolve\<close> operation,
      \<open>{success, workflow?, error?}\<close>\<close>
  "resolveEndpoint g patches =
     (case applyPatches g patches of
        Inl e \<Rightarrow> ResolveRejected (Some (describeError e))
      | Inr g' \<Rightarrow> ResolveSuccess g')"

definition widgetAt :: "graph \<Rightarrow> nat \<times> string option \<Rightarrow> nat \<Rightarrow> string option" where
  "widgetAt g k i =
     (case g k of None \<Rightarrow> None | Some ws \<Rightarrow> if i < length ws then Some (ws ! i) else None)"

section \<open>Example data\<close>

definition modelX :: local_model where
  "modelX = \<lparr>path = ''checkpoints/sub/x.safetensors'',
              relative_path = Some ''sub/x.safetensors'',
              model_filename = Some ''x.safetensors''\<rparr>"

definition match100 :: match where
  "match100 = \<lparr>confidence = 100, filename = Some ''x.safetensors'', model = Some modelX\<rparr>"

definition match90 :: match where
  "match90 = \<lparr>confidence = 90, filename = Some ''x_v2.safetensors'', model = Some modelX\<rparr>"

definition match85 :: match where
  "match85 = \<lparr>confidence = 85, filename = Some ''y1.safetensors'', model = Some modelX\<rparr>"

definition match50 :: match where
  "match50 = \<lparr>confidence = 50, filename = Some ''z.safetensors'', model = Some modelX\<rparr>"

definition refTop1 :: node_ref where
  "refTop1 = \<lparr>node_id = 4, widget_index = 0, category = Some ''checkpoints'',
               subgraph_id = None, is_top_level = True\<rparr>"

definition refTop2 :: node_ref where
  "refTop2 = \<lparr>node_id = 9, widget_index = 0, category = Some ''checkpoints'',
               subgraph_id = None, is_top_level = True\<rparr>"

definition refSub :: node_ref where
  "refSub = \<lparr>node_id = 2, widget_index = 1, category = Some ''checkpoints'',
              subgraph_id = Some ''sg-1'', is_top_level = False\<rparr>"

definition entryX :: missing_model where
  \<comment> \<open>three references to one missing file, with an exact local match\<close>
  "entryX = \<lparr>node_id = 4, widget_index = 0, category = Some ''checkpoints'',
              subgraph_id = None, is_top_level = True,
              original_path = Some ''checkpoints/x.safetensors'',
              matches = Some [match90, match100],
              all_node_refs = Some [refTop1, refTop2, refSub],
              download_source = None\<rparr>"

definition entryY :: missing_model where
  \<comment> \<open>one reference, only a partial match\<close>
  "entryY = \<lparr>node_id = 7, widget_index = 2, category = Some ''loras'',
              subgraph_id = None, is_top_level = True,
              original_path = Some ''loras/y.safetensors'',
              matches = Some [match50, match85],
              all_node_refs = None,
                download_source = None\<rparr>"



definition match71 :: match where
  "match71 = \<lparr>confidence = 71, filename = None, model = Some modelX\<rparr>"

definition match75 :: match where
  "match75 = \<lparr>confidence = 75, filename = None, model = Some modelX\<rparr>"

definition match80 :: match where
  "match80 = \<lparr>confidence = 80, filename = None, model = Some modelX\<rparr>"

definition match95 :: match where
  "match95 = \<lparr>confidence = 95, filename = None, model = Some modelX\<rparr>"

definition entryMany :: missing_model where
  \<comment> \<open>six candidates at or above 70, none at 100\<close>
  "entryMany = \<lparr>node_id = 3, widget_index = 0, category = Some ''vae'',
                 subgraph_id = None, is_top_level = True,
                 original_path = Some ''vae/v.safetensors'',
                 matches = Some [match75, match90, match71, match50, match95, match85, match80],
                 all_node_refs = None,
                download_source = None\<rparr>"

definition entryLow :: missing_model where
  \<comment> \<open>only a candidate below 70\<close>
  "entryLow = \<lparr>node_id = 5, widget_index = 0, category = Some ''vae'',
                subgraph_id = None, is_top_level = True,
                original_path = Some ''vae/w.safetensors'',
                matches = Some [match50],
                all_node_refs = None,
                download_source = None\<rparr>"

definition analysisXY :: analyze_data where
  "analysisXY = \<lparr>missing_models = Some [entryY, entryLow, entryX, entryMany],
                   total_missing = Some 4\<rparr>"

definition cardsXY :: "(missing_model \<times> local_matches) list" where
  "cardsXY = [(entryX, MatchRows [match100] (Some 1)),
              (entryMany, MatchRows [match95, match90, match85, match80, match75] None),
              (entryY, MatchRows [match85] None),
              (entryLow, NoMatchesAbove70)]"

definition client0 :: "nat client" where
  \<comment> \<open>a client whose workflow is version 0, nothing tracked, nothing sent\<close>
  "client0 = \<lparr>app_graph = Some 0, activeDownloads = [], timers = [], calls = [],
               notifications = [], content = None\<rparr>"

definition srvX :: "nat server" where
  \<comment> \<open>a backend that reports \<open>entryX\<close> missing and accepts every batch\<close>
  "srvX = \<lparr>analyze = (\<lambda>w. AnalyzeOk \<lparr>missing_models = Some [entryX], total_missing = Some 1\<rparr>),
            resolve = (\<lambda>w rs. ResolveSuccess (Suc w))\<rparr>"

definition graphG :: graph where
  \<comment> \<open>a workflow holding the three nodes that \<open>entryX\<close> refers to\<close>
  "graphG = [(4, None) \<mapsto> [''checkpoints/x.safetensors''],
             (9, None) \<mapsto> [''checkpoints/x.safetensors''],
             (2, Some ''sg-1'') \<mapsto> [''1.0'', ''checkpoints/x.safetensors'']]"

definition graphH :: graph where
  \<comment> \<open>the same workflow after node 9 was deleted\<close>
  "graphH = [(4, None) \<mapsto> [''checkpoints/x.safetensors''],
             (2, Some ''sg-1'') \<mapsto> [''1.0'', ''checkpoints/x.safetensors'']]"

definition clientOf :: "graph \<Rightarrow> graph client" where
  "clientOf g = \<lparr>app_graph = Some g, activeDownloads = [], timers = [], calls = [],
                  notifications = [], content = None\<rparr>"

definition srvG :: "graph server" where
  "srvG = \<lparr>analyze = (\<lambda>w. AnalyzeOk \<lparr>missing_models = Some [], total_missing = Some 0\<rparr>),
            resolve = resolveEndpoint\<rparr>"

definition sourceX :: download_source where
  "sourceX = \<lparr>url = Some ''https://huggingface.co/org/repo/resolve/main/X.safetensors'',
               source_filename = Some ''X.safetensors'', directory = None\<rparr>"

definition entryDup :: missing_model where
  \<comment> \<open>another missing file of the same name in another folder, without candidates\<close>
  "entryDup = \<lparr>node_id = 11, widget_index = 0, category = Some ''loras'',
                subgraph_id = None, is_top_level = True,
                original_path = Some ''loras/X.safetensors'',
                matches = Some [],
                all_node_refs = None,
                download_source = Some sourceX\<rparr>"



definition clientD :: "nat client" where
  \<comment> \<open>one download in flight\<close>
  "clientD = \<lparr>app_graph = Some 0, activeDownloads = [(''job-1'', entryDup)], timers = [],
               calls = [], notifications = [], content = None\<rparr>"

definition progressDone :: progress where
  "progressDone = \<lparr>status = ''completed'', progress_filename = ''X.safetensors''\<rparr>"

definition progressRunning :: progress where
  "progressRunning = \<lparr>status = ''downloading'', progress_filename = ''X.safetensors''\<rparr>"

section \<open>Properties of the sort\<close>

lemma mset_insort_by: "mset (insort_by cmp x xs) = add_mset x (mset xs)"
  by (induction xs) auto

lemma mset_js_sort: "mset (js_sort cmp xs) = mset xs"
  by (induction xs) (auto simp: js_sort_def mset_insort_by)

lemma set_insort_by: "set (insort_by cmp x xs) = insert x (set xs)"
  by (induction xs) auto

lemma set_js_sort: "set (js_sort cmp xs) = set xs"
  by (induction xs) (auto simp: js_sort_def set_insort_by)

lemma length_js_sort: "length (js_sort cmp xs) = length xs"
  by (metis mset_js_sort size_mset)

text \<open>A comparator that is total and transitive yields a list in its order.\<close>

lemma sorted_insort_by:
  assumes total: "\<And>a b. \<not> cmp a b \<le> 0 \<Longrightarrow> cmp b a \<le> 0"
      and trans: "\<And>a b c. cmp a b \<le> 0 \<Longrightarrow> cmp b c \<le> 0 \<Longrightarrow> cmp a c \<le> 0"
      and sorted: "sorted_wrt (\<lambda>a b. cmp a b \<le> 0) xs"
  shows "sorted_wrt (\<lambda>a b. cmp a b \<le> 0) (insort_by cmp x xs)"
  using sorted
proof (induction xs)
  case Nil
  then show ?case by simp
next
  case (Cons y ys)
  show ?case
  proof (cases "cmp x y \<le> 0")
    case True
    have "cmp x z \<le> 0" if "z \<in> set ys" for z
    proof -
      from Cons.prems that have "cmp y z \<le> 0" by simp
      with True show ?thesis by (rule trans)
    qed
    with True Cons.prems show ?thesis by simp
  next
    case False
    then have yx: "cmp y x \<le> 0" by (rule total)
    from Cons have "sorted_wrt (\<lambda>a b. cmp a b \<le> 0) (insort_by cmp x ys)" by simp
    with False yx Cons.prems show ?thesis by (simp add: set_insort_by)
  qed
qed

lemma sorted_js_sort:
  assumes total: "\<And>a b. \<not> cmp a b \<le> 0 \<Longrightarrow> cmp b a \<le> 0"
      and trans: "\<And>a b c. cmp a b \<le> 0 \<Longrightarrow> cmp b c \<le> 0 \<Longrightarrow> cmp a c \<le> 0"
  shows "sorted_wrt (\<lambda>a b. cmp a b \<le> 0) (js_sort cmp xs)"
proof (induction xs)
  case Nil
  then show ?case by (simp add: js_sort_def)
next
  case (Cons x xs)
  have eq: "js_sort cmp (x # xs) = insort_by cmp x (js_sort cmp xs)"
    by (simp add: js_sort_def)
  show ?case unfolding eq
    by (rule sorted_insort_by [OF total trans Cons.IH])
qed

text \<open>Sorting a list that is already in order changes nothing (the sort is stable).\<close>

lemma insort_by_sorted_id:
  "\<forall>y\<in>set xs. cmp x y \<le> 0 \<Longrightarrow> insort_by cmp x xs = x # xs"
  by (cases xs) auto

lemma js_sort_sorted_id:
  "sorted_wrt (\<lambda>a b. cmp a b \<le> 0) xs \<Longrightarrow> js_sort cmp xs = xs"
proof (induction xs)
  case Nil
  then show ?case by (simp add: js_sort_def)
next
  case (Cons x xs)
  then have "js_sort cmp xs = xs" by simp
  moreover have "js_sort cmp (x # xs) = insort_by cmp x (js_sort cmp xs)"
    by (simp add: js_sort_def)
  ultimately show ?case using Cons.prems by (simp add: insort_by_sorted_id)
qed

section \<open>Order of the displayed entries\<close>

lemma compareMissing_le:
  "compareMissing a b \<le> 0 \<longleftrightarrow>
     (has100 a \<and> \<not> has100 b) \<or> (has100 a = has100 b \<and> bestConf b \<le> bestConf a)"
  by (auto simp: compareMissing_def)

lemma sorted_sortedMissingModels:
  "sorted_wrt (\<lambda>a b. compareMissing a b \<le> 0) (sortedMissingModels ms)"
  unfolding sortedMissingModels_def
  by (rule sorted_js_sort) (auto simp: compareMissing_le)

text \<open>
  Claim C1. Whenever the dialog shows cards, the cards are a rearrangement of the entries of
  the analyze result in which every entry with a confidence-100 candidate (among those at
  or above 70) stands before every entry without one, and in which two entries of the same
  group stand in descending order of their best candidate confidence, an entry without a
  candidate at or above 70 counting as 0.
\<close>

theorem displayed_entries_ordered:
  assumes "displayMissingModels activeCount data = MissingCards cards"
  shows "mset (map fst cards) = mset (or_empty (missing_models data)) \<and>
         (\<forall>i j. i < j \<and> j < length cards \<longrightarrow>
            (has100 (fst (cards ! j)) \<longrightarrow> has100 (fst (cards ! i))) \<and>
            (has100 (fst (cards ! i)) = has100 (fst (cards ! j)) \<longrightarrow>
               bestConf (fst (cards ! j)) \<le> bestConf (fst (cards ! i))))"
proof -
  define ys where "ys = sortedMissingModels (or_empty (missing_models data))"
  from assms have cards: "cards = map (\<lambda>missing. (missing, renderMissingModel missing)) ys"
    by (simp add: displayMissingModels_def Let_def ys_def split: if_splits)
  have fst: "map fst cards = ys" unfolding cards by (simp add: comp_def)
  have perm: "mset ys = mset (or_empty (missing_models data))"
    by (simp add: ys_def sortedMissingModels_def mset_js_sort)
  have srt: "sorted_wrt (\<lambda>a b. compareMissing a b \<le> 0) ys"
    unfolding ys_def by (rule sorted_sortedMissingModels)
  have len: "length cards = length ys" unfolding cards by simp
  have nth: "fst (cards ! i) = ys ! i" if "i < length ys" for i
    unfolding cards using that by simp
  have ord: "(has100 (fst (cards ! j)) \<longrightarrow> has100 (fst (cards ! i))) \<and>
            (has100 (fst (cards ! i)) = has100 (fst (cards ! j)) \<longrightarrow>
               bestConf (fst (cards ! j)) \<le> bestConf (fst (cards ! i)))"
    if ij: "i < j \<and> j < length cards" for i j
  proof -
    from ij len have i: "i < length ys" and j: "j < length ys" and "i < j" by simp_all
    from srt \<open>i < j\<close> j have "compareMissing (ys ! i) (ys ! j) \<le> 0"
      by (rule sorted_wrt_nth_less)
    then have "(has100 (ys ! i) \<and> \<not> has100 (ys ! j)) \<or>
               (has100 (ys ! i) = has100 (ys ! j) \<and> bestConf (ys ! j) \<le> bestConf (ys ! i))"
      by (simp only: compareMissing_le)
    then show ?thesis unfolding nth[OF i] nth[OF j] by blast
  qed
  from fst perm have "mset (map fst cards) = mset (or_empty (missing_models data))" by simp
  with ord show ?thesis by blast
qed

lemmas fixture_defs =
  modelX_def match100_def match90_def match85_def match50_def match71_def match75_def
  match80_def match95_def entryX_def entryY_def entryMany_def entryLow_def

lemmas render_defs =
  renderMissingModel_def sortedMatches_def matchesToShow_def perfectMatches_def
  otherMatches_def compareMatches_def compareDesc_def filter70_def or_empty_def js_sort_def

lemma has100_examples:
  "has100 entryX" "\<not> has100 entryY" "\<not> has100 entryMany" "\<not> has100 entryLow"
  by (simp_all add: has100_def filter70_def or_empty_def fixture_defs)

lemma bestConf_examples:
  "bestConf entryY = 85" "bestConf entryMany = 95" "bestConf entryLow = 0"
  by (simp_all add: bestConf_def filter70_def or_empty_def fixture_defs)

lemma render_entryX: "renderMissingModel entryX = MatchRows [match100] (Some 1)"
  by (simp add: render_defs fixture_defs)

lemma render_entryY: "renderMissingModel entryY = MatchRows [match85] None"
  by (simp add: render_defs fixture_defs)

lemma render_entryMany:
  "renderMissingModel entryMany = MatchRows [match95, match90, match85, match80, match75] None"
  by (simp add: render_defs fixture_defs)

lemma render_entryLow: "renderMissingModel entryLow = NoMatchesAbove70"
  by (simp add: render_defs fixture_defs)

lemma sorted_examples:
  "sortedMissingModels [entryY, entryLow, entryX, entryMany] =
   [entryX, entryMany, entryY, entryLow]"
  by (simp add: sortedMissingModels_def js_sort_def compareMissing_def has100_examples
      bestConf_examples)

lemma display_analysisXY: "displayMissingModels 0 analysisXY = MissingCards cardsXY"
  by (simp add: displayMissingModels_def analysisXY_def or_empty_def sorted_examples
      render_entryX render_entryY render_entryMany render_entryLow cardsXY_def)

theorem displayed_entries_ordered_witness:
  "displayMissingModels 0 analysisXY = MissingCards cardsXY \<and>
   mset (map fst cardsXY) = mset (or_empty (missing_models analysisXY)) \<and>
   has100 (fst (cardsXY ! 0)) \<and>
   bestConf (fst (cardsXY ! 2)) \<le> bestConf (fst (cardsXY ! 1))"
proof -
  note ordered = displayed_entries_ordered [OF display_analysisXY]
  from ordered have perm: "mset (map fst cardsXY) = mset (or_empty (missing_models analysisXY))"
    by (rule conjunct1)
  have "(1::nat) < 2 \<and> 2 < length cardsXY" by (simp add: cardsXY_def)
  with ordered have "has100 (fst (cardsXY ! 1)) = has100 (fst (cardsXY ! 2)) \<longrightarrow>
      bestConf (fst (cardsXY ! 2)) \<le> bestConf (fst (cardsXY ! 1))"
    by blast
  then have best: "bestConf (fst (cardsXY ! 2)) \<le> bestConf (fst (cardsXY ! 1))"
    by (simp add: cardsXY_def has100_examples)
  have first: "has100 (fst (cardsXY ! 0))"
    by (simp add: cardsXY_def has100_examples)
  from display_analysisXY perm first best show ?thesis by simp
qed

section \<open>The candidates of one card\<close>

lemma sorted_wrt_all:
  "(\<And>x y. x \<in> set xs \<Longrightarrow> y \<in> set xs \<Longrightarrow> P x y) \<Longrightarrow> sorted_wrt P xs"
  by (induction xs) auto

lemma js_sort_Nil_iff: "js_sort cmp xs = [] \<longleftrightarrow> xs = []"
  using length_js_sort[of cmp xs] by (metis length_0_conv)

lemma perfectMatches_eq: "perfectMatches ms = filter (\<lambda>c. confidence c = 100) ms"
  by (induction ms) (auto simp: perfectMatches_def filter70_def)

lemma otherMatches_eq:
  "otherMatches ms = filter (\<lambda>c. 70 \<le> confidence c \<and> confidence c < 100) ms"
  by (induction ms) (auto simp: otherMatches_def filter70_def)

lemma sort_perfect: "js_sort compareMatches (perfectMatches ms) = perfectMatches ms"
  by (rule js_sort_sorted_id, rule sorted_wrt_all) (simp add: perfectMatches_eq compareMatches_def)

lemma compareDesc_le: "compareDesc a b \<le> 0 \<longleftrightarrow> confidence b \<le> confidence a"
  by (simp add: compareDesc_def)

lemma sorted_compareDesc: "sorted_wrt (\<lambda>a b. compareDesc a b \<le> 0) (js_sort compareDesc xs)"
  by (rule sorted_js_sort) (auto simp: compareDesc_le)

text \<open>The second sort of \<open>renderMissingModel\<close> leaves the five kept candidates as they are.\<close>

lemma sort_others:
  "js_sort compareMatches (take 5 (js_sort compareDesc (otherMatches ms))) =
   take 5 (js_sort compareDesc (otherMatches ms))"
proof (rule js_sort_sorted_id)
  let ?xs = "take 5 (js_sort compareDesc (otherMatches ms))"
  have no100: "confidence x \<noteq> 100" if "x \<in> set ?xs" for x
  proof -
    from that have "x \<in> set (js_sort compareDesc (otherMatches ms))" by (rule in_set_takeD)
    then show ?thesis by (simp add: set_js_sort otherMatches_eq)
  qed
  have "sorted_wrt (\<lambda>a b. compareDesc a b \<le> 0) ?xs"
    by (rule sorted_wrt_take) (rule sorted_compareDesc)
  then show "sorted_wrt (\<lambda>a b. compareMatches a b \<le> 0) ?xs"
  proof (rule sorted_wrt_mono_rel [rotated])
    fix a b assume "a \<in> set ?xs" "b \<in> set ?xs" "compareDesc a b \<le> 0"
    then show "compareMatches a b \<le> 0"
      using no100 by (simp add: compareMatches_def compareDesc_def)
  qed
qed

lemma sortedMatches_perfect:
  "perfectMatches ms \<noteq> [] \<Longrightarrow> sortedMatches ms = perfectMatches ms"
  by (simp add: sortedMatches_def matchesToShow_def sort_perfect)

lemma sortedMatches_others:
  "perfectMatches ms = [] \<Longrightarrow> sortedMatches ms = take 5 (js_sort compareDesc (otherMatches ms))"
  by (simp add: sortedMatches_def matchesToShow_def sort_others)

lemma set_sortedMatches: "set (sortedMatches ms) \<subseteq> set (filter70 ms)"
proof (cases "perfectMatches ms = []")
  case True
  have "set (take 5 (js_sort compareDesc (otherMatches ms))) \<subseteq> set (otherMatches ms)"
    using set_take_subset[of 5 "js_sort compareDesc (otherMatches ms)"] by (simp add: set_js_sort)
  with True show ?thesis by (auto simp: sortedMatches_others otherMatches_def)
next
  case False
  then show ?thesis by (auto simp: sortedMatches_perfect perfectMatches_def)
qed

text \<open>
  Claim C3. An entry with a candidate of confidence 100 gets Link rows for exactly its
  confidence-100 candidates, in their order; no candidate between 70 and 99 gets a row.
  The number of candidates between 70 and 99 is shown in the note under the rows whenever
  there is such a candidate.
\<close>

theorem perfect_matches_only:
  assumes "\<exists>c\<in>set (or_empty (matches missing)). confidence c = 100"
  shows "renderMissingModel missing =
           MatchRows (filter (\<lambda>c. confidence c = 100) (or_empty (matches missing)))
             (let n = length (filter (\<lambda>c. 70 \<le> confidence c \<and> confidence c < 100)
                                (or_empty (matches missing)))
              in if n > 0 then Some n else None)"
proof -
  let ?ms = "or_empty (matches missing)"
  from assms have p: "perfectMatches ?ms \<noteq> []"
    by (auto simp: perfectMatches_eq filter_empty_conv)
  then have f: "filter70 ?ms \<noteq> []" by (auto simp: perfectMatches_def)
  show ?thesis
    using p f by (simp add: renderMissingModel_def Let_def sortedMatches_perfect)
                 (simp add: perfectMatches_eq otherMatches_eq)
qed

theorem perfect_matches_only_witness:
  "(\<exists>c\<in>set (or_empty (matches entryX)). confidence c = 100) \<and>
   renderMissingModel entryX = MatchRows [match100] (Some 1)"
proof -
  have h: "\<exists>c\<in>set (or_empty (matches entryX)). confidence c = 100"
    by (simp add: entryX_def or_empty_def match100_def)
  from perfect_matches_only [OF h]
  have "renderMissingModel entryX = MatchRows [match100] (Some 1)"
    by (simp add: entryX_def or_empty_def match100_def match90_def)
  with h show ?thesis by (rule conjI)
qed

text \<open>
  Claim C8. Every candidate that gets a Link row is a candidate of the entry with
  confidence at least 70. An entry whose candidates are all below 70, or which has none,
  is rendered as a card with a notice in place of the rows: "No matches above 70%
  confidence" when it has candidates, "No local matches found" when it has none. Whenever
  the dialog shows cards, every entry of the analyze result has its card among them.
\<close>

theorem rows_at_least_70:
  "(\<forall>rows remark. renderMissingModel missing = MatchRows rows remark \<longrightarrow>
      (\<forall>r\<in>set rows. 70 \<le> confidence r \<and> r \<in> set (or_empty (matches missing)))) \<and>
   ((\<forall>c\<in>set (or_empty (matches missing)). confidence c < 70) \<longrightarrow>
      renderMissingModel missing =
        (if or_empty (matches missing) = [] then NoLocalMatchesFound else NoMatchesAbove70)) \<and>
   (displayMissingModels activeCount data = MissingCards cards \<and>
    missing \<in> set (or_empty (missing_models data)) \<longrightarrow>
      (missing, renderMissingModel missing) \<in> set cards)"
proof (intro conjI allI impI ballI)
  fix rows remark r
  assume "renderMissingModel missing = MatchRows rows remark" "r \<in> set rows"
  then have "r \<in> set (sortedMatches (or_empty (matches missing)))"
    by (auto simp: renderMissingModel_def Let_def split: if_splits)
  with set_sortedMatches have "r \<in> set (filter70 (or_empty (matches missing)))" by blast
  then show "70 \<le> confidence r" "r \<in> set (or_empty (matches missing))"
    by (simp_all add: filter70_def)
next
  assume "\<forall>c\<in>set (or_empty (matches missing)). confidence c < 70"
  then have "filter70 (or_empty (matches missing)) = []"
    by (auto simp: filter70_def filter_empty_conv)
  then show "renderMissingModel missing =
        (if or_empty (matches missing) = [] then NoLocalMatchesFound else NoMatchesAbove70)"
    by (simp add: renderMissingModel_def Let_def)
next
  assume h: "displayMissingModels activeCount data = MissingCards cards \<and>
    missing \<in> set (or_empty (missing_models data))"
  then have "cards = map (\<lambda>missing. (missing, renderMissingModel missing))
                       (sortedMissingModels (or_empty (missing_models data)))"
    by (simp add: displayMissingModels_def Let_def split: if_splits)
  moreover from h have "missing \<in> set (sortedMissingModels (or_empty (missing_models data)))"
    by (simp add: sortedMissingModels_def set_js_sort)
  ultimately show "(missing, renderMissingModel missing) \<in> set cards" by simp
qed

theorem rows_at_least_70_witness:
  "renderMissingModel entryY = MatchRows [match85] None \<and>
   70 \<le> confidence match85 \<and> match85 \<in> set (or_empty (matches entryY)) \<and>
   list_all (\<lambda>c. confidence c < 70) (or_empty (matches entryLow)) \<and>
   renderMissingModel entryLow = NoMatchesAbove70 \<and>
   displayMissingModels 0 analysisXY = MissingCards cardsXY \<and>
   entryLow \<in> set (or_empty (missing_models analysisXY)) \<and>
   (entryLow, NoMatchesAbove70) \<in> set cardsXY"
proof -
  have "70 \<le> confidence match85 \<and> match85 \<in> set (or_empty (matches entryY))"
    using rows_at_least_70 [of entryY] render_entryY by simp
  moreover have low: "\<forall>c\<in>set (or_empty (matches entryLow)). confidence c < 70"
    by (simp add: entryLow_def or_empty_def match50_def)
  moreover have shown: "renderMissingModel entryLow = NoMatchesAbove70"
    using rows_at_least_70 [of entryLow] low by (simp add: entryLow_def or_empty_def)
  moreover have member: "entryLow \<in> set (or_empty (missing_models analysisXY))"
    by (simp add: analysisXY_def or_empty_def)
  moreover have "(entryLow, NoMatchesAbove70) \<in> set cardsXY"
    using rows_at_least_70 [of entryLow 0 analysisXY cardsXY] display_analysisXY member shown
    by simp
  ultimately show ?thesis using render_entryY display_analysisXY by (simp add: list_all_iff)
qed

text \<open>
  Claim C9. For an entry without a candidate of confidence 100 (confidences being at most
  100), rank the candidates of confidence at least 70 by descending confidence. The card
  has Link rows for the first five of that ranking and for no other candidate, and it has
  no note about the omitted ones; without any candidate at or above 70 it has a notice.
\<close>

theorem at_most_five_rows:
  assumes no100: "\<forall>c\<in>set (or_empty (matches missing)). confidence c \<noteq> 100"
      and range: "\<forall>c\<in>set (or_empty (matches missing)). confidence c \<le> 100"
  shows "let ranked = js_sort compareDesc
                        (filter (\<lambda>c. 70 \<le> confidence c) (or_empty (matches missing)))
         in renderMissingModel missing =
              (if ranked = [] then
                 (if or_empty (matches missing) = [] then NoLocalMatchesFound
                  else NoMatchesAbove70)
               else MatchRows (take 5 ranked) None) \<and>
            length (take 5 ranked) \<le> 5 \<and>
            mset ranked = mset (filter (\<lambda>c. 70 \<le> confidence c) (or_empty (matches missing))) \<and>
            (\<forall>i j. i < j \<and> j < length ranked \<longrightarrow>
               confidence (ranked ! j) \<le> confidence (ranked ! i))"
proof -
  let ?ms = "or_empty (matches missing)"
  define ranked where "ranked = js_sort compareDesc (filter (\<lambda>c. 70 \<le> confidence c) ?ms)"
  from no100 have p: "perfectMatches ?ms = []"
    by (auto simp: perfectMatches_eq filter_empty_conv)
  have "filter (\<lambda>c. 70 \<le> confidence c \<and> confidence c < 100) ?ms = filter (\<lambda>c. 70 \<le> confidence c) ?ms"
    using no100 range by (intro filter_cong refl) force
  then have o: "otherMatches ?ms = filter70 ?ms" by (simp add: otherMatches_eq filter70_def)
  have r: "ranked = js_sort compareDesc (filter70 ?ms)" by (simp add: ranked_def filter70_def)
  have e: "ranked = [] \<longleftrightarrow> filter70 ?ms = []"
    unfolding r by (rule js_sort_Nil_iff)
  have 1: "renderMissingModel missing =
           (if ranked = [] then
              (if ?ms = [] then NoLocalMatchesFound else NoMatchesAbove70)
            else MatchRows (take 5 ranked) None)"
    using p by (simp add: renderMissingModel_def Let_def e sortedMatches_others o)
               (simp add: r)
  have 3: "mset ranked = mset (filter (\<lambda>c. 70 \<le> confidence c) ?ms)"
    by (simp add: ranked_def mset_js_sort)
  have "sorted_wrt (\<lambda>a b. compareDesc a b \<le> 0) ranked"
    unfolding ranked_def by (rule sorted_compareDesc)
  then have 4: "confidence (ranked ! j) \<le> confidence (ranked ! i)"
    if "i < j" "j < length ranked" for i j
    using that sorted_wrt_nth_less[of "\<lambda>a b. compareDesc a b \<le> 0" ranked i j]
    by (simp add: compareDesc_le)
  from 1 3 4 show ?thesis unfolding Let_def ranked_def [symmetric] by simp
qed

theorem at_most_five_rows_witness:
  "list_all (\<lambda>c. confidence c \<noteq> 100) (or_empty (matches entryMany)) \<and>
   list_all (\<lambda>c. confidence c \<le> 100) (or_empty (matches entryMany)) \<and>
   length (or_empty (matches entryMany)) = 7 \<and>
   renderMissingModel entryMany =
     MatchRows [match95, match90, match85, match80, match75] None"
proof -
  have a: "\<forall>c\<in>set (or_empty (matches entryMany)). confidence c \<noteq> 100"
    by (simp add: or_empty_def fixture_defs)
  have b: "\<forall>c\<in>set (or_empty (matches entryMany)). confidence c \<le> 100"
    by (simp add: or_empty_def fixture_defs)
  have "js_sort compareDesc (filter (\<lambda>c. 70 \<le> confidence c) (or_empty (matches entryMany)))
        = [match95, match90, match85, match80, match75, match71]"
    by (simp add: or_empty_def fixture_defs js_sort_def compareDesc_def)
  with at_most_five_rows [OF a b]
  have "renderMissingModel entryMany =
          MatchRows [match95, match90, match85, match80, match75] None"
    by (simp add: Let_def)
  moreover have "length (or_empty (matches entryMany)) = 7"
    by (simp add: or_empty_def entryMany_def)
  ultimately show ?thesis using a b by (simp add: list_all_iff)
qed

section \<open>Resolutions sent to the backend\<close>

lemma calls_showNotification [simp]: "calls (showNotification n st) = calls st"
  by (simp add: showNotification_def)

lemma calls_updateWorkflowInComfyUI [simp]: "calls (updateWorkflowInComfyUI w st) = calls st"
  by (simp add: updateWorkflowInComfyUI_def split: option.splits)

lemma app_graph_showNotification [simp]: "app_graph (showNotification n st) = app_graph st"
  by (simp add: showNotification_def)

lemma app_graph_loadWorkflowData [simp]: "app_graph (loadWorkflowData srv wo st) = app_graph st"
  by (simp add: loadWorkflowData_def Let_def split: option.splits analyze_response.splits)

lemma calls_loadWorkflowData:
  "\<exists>rest. calls (loadWorkflowData srv wo st) = calls st @ rest \<and> resolveCalls rest = []"
proof (cases "case wo of None \<Rightarrow> getCurrentWorkflow st | Some w \<Rightarrow> Some w")
  case None
  then have "calls (loadWorkflowData srv wo st) = calls st @ []"
    by (simp add: loadWorkflowData_def)
  then show ?thesis by (intro exI[of _ "[]"]) (simp add: resolveCalls_def)
next
  case (Some w)
  then have "calls (loadWorkflowData srv wo st) = calls st @ [Analyze w]"
    by (simp add: loadWorkflowData_def Let_def split: analyze_response.splits)
  then show ?thesis by (intro exI[of _ "[Analyze w]"]) (simp add: resolveCalls_def)
qed

lemma resolveModel_calls:
  assumes "app_graph st = Some workflow"
  shows "\<exists>rest. calls (resolveModel srv missing (Some chosen) st) =
            calls st @ Resolve workflow (map (mkResolution chosen) (nodeRefs missing)) # rest \<and>
            resolveCalls rest = []"
proof (cases "resolve srv workflow (map (mkResolution chosen) (nodeRefs missing))")
  case ResolveFailed
  with assms have "calls (resolveModel srv missing (Some chosen) st) =
            calls st @ Resolve workflow (map (mkResolution chosen) (nodeRefs missing)) # []"
    by (simp add: resolveModel_def getCurrentWorkflow_def Let_def)
  then show ?thesis by (intro exI[of _ "[]"]) (simp add: resolveCalls_def)
next
  case (ResolveRejected err)
  with assms have "calls (resolveModel srv missing (Some chosen) st) =
            calls st @ Resolve workflow (map (mkResolution chosen) (nodeRefs missing)) # []"
    by (simp add: resolveModel_def getCurrentWorkflow_def Let_def)
  then show ?thesis by (intro exI[of _ "[]"]) (simp add: resolveCalls_def)
next
  case (ResolveSuccess w')
  let ?rs = "map (mkResolution chosen) (nodeRefs missing)"
  let ?st2 = "showNotification (ModelLinked (modelName chosen) (length ?rs))
                (updateWorkflowInComfyUI w' (st\<lparr>calls := calls st @ [Resolve workflow ?rs]\<rparr>))"
  from ResolveSuccess assms
  have eq: "resolveModel srv missing (Some chosen) st = loadWorkflowData srv (Some w') ?st2"
    by (simp add: resolveModel_def getCurrentWorkflow_def Let_def)
  obtain rest where "calls (loadWorkflowData srv (Some w') ?st2) = calls ?st2 @ rest"
    and "resolveCalls rest = []"
    using calls_loadWorkflowData by blast
  then show ?thesis unfolding eq by (intro exI[of _ rest]) simp
qed

lemma calls_loadWorkflowData_rev1:
  "\<exists>rest. calls (loadWorkflowData_rev1 srv wo st) = calls st @ rest \<and> resolveCalls rest = []"
proof (cases "case wo of None \<Rightarrow> getCurrentWorkflow st | Some w \<Rightarrow> Some w")
  case None
  then have "calls (loadWorkflowData_rev1 srv wo st) = calls st @ []"
    by (simp add: loadWorkflowData_rev1_def)
  then show ?thesis by (intro exI[of _ "[]"]) (simp add: resolveCalls_def)
next
  case (Some w)
  then have "calls (loadWorkflowData_rev1 srv wo st) = calls st @ [Analyze w]"
    by (simp add: loadWorkflowData_rev1_def Let_def split: analyze_response.splits)
  then show ?thesis by (intro exI[of _ "[Analyze w]"]) (simp add: resolveCalls_def)
qed

lemma resolveModel_rev1_calls:
  assumes "app_graph st = Some workflow"
  shows "\<exists>rest. calls (resolveModel_rev1 srv missing (Some chosen) st) =
            calls st @ Resolve workflow [mkResolution chosen missing] # rest \<and>
            resolveCalls rest = []"
proof (cases "resolve srv workflow [mkResolution chosen missing]")
  case ResolveFailed
  with assms have "calls (resolveModel_rev1 srv missing (Some chosen) st) =
            calls st @ Resolve workflow [mkResolution chosen missing] # []"
    by (simp add: resolveModel_rev1_def getCurrentWorkflow_def Let_def)
  then show ?thesis by (intro exI[of _ "[]"]) (simp add: resolveCalls_def)
next
  case (ResolveRejected err)
  with assms have "calls (resolveModel_rev1 srv missing (Some chosen) st) =
            calls st @ Resolve workflow [mkResolution chosen missing] # []"
    by (simp add: resolveModel_rev1_def getCurrentWorkflow_def Let_def)
  then show ?thesis by (intro exI[of _ "[]"]) (simp add: resolveCalls_def)
next
  case (ResolveSuccess w')
  let ?rs = "[mkResolution chosen missing]"
  let ?st2 = "showNotification (ModelLinked (modelName chosen) 1)
                (updateWorkflowInComfyUI w' (st\<lparr>calls := calls st @ [Resolve workflow ?rs]\<rparr>))"
  from ResolveSuccess assms
  have eq: "resolveModel_rev1 srv missing (Some chosen) st = loadWorkflowData_rev1 srv (Some w') ?st2"
    by (simp add: resolveModel_rev1_def getCurrentWorkflow_def Let_def)
  obtain rest where "calls (loadWorkflowData_rev1 srv (Some w') ?st2) = calls ?st2 @ rest"
    and "resolveCalls rest = []"
    using calls_loadWorkflowData_rev1 by blast
  then show ?thesis unfolding eq by (intro exI[of _ rest]) simp
qed

text \<open>
  Claim C2, amended. With a workflow loaded, resolving an entry with a chosen file sends one
  resolve request. In the latest revision (and in the second one) its batch has one
  resolution for each member of the entry's \<open>all_node_refs\<close>, in order, carrying that
  reference's node id, widget index, subgraph id and top-level flag and the path of the
  chosen file. In the oldest revision its batch is a single resolution, carrying the
  entry's own node id, widget index, subgraph id and top-level flag and that path.
\<close>

theorem resolveModel_covers_all_refs:
  assumes refs: "all_node_refs missing = Some refs"
      and wf: "app_graph st = Some workflow"
  shows "(\<exists>rs rest.
           calls (resolveModel srv missing (Some chosen) st) =
             calls st @ Resolve workflow rs # rest \<and>
           resolveCalls rest = [] \<and>
           length rs = length refs \<and>
           (\<forall>i<length refs.
              node_id (rs ! i) = node_id (refs ! i) \<and>
              widget_index (rs ! i) = widget_index (refs ! i) \<and>
              subgraph_id (rs ! i) = subgraph_id (refs ! i) \<and>
              is_top_level (rs ! i) = is_top_level (refs ! i) \<and>
              resolved_path (rs ! i) = path chosen)) \<and>
         (\<exists>r rest.
           calls (resolveModel_rev1 srv missing (Some chosen) st) =
             calls st @ Resolve workflow [r] # rest \<and>
           resolveCalls rest = [] \<and>
           node_id r = node_id missing \<and>
           widget_index r = widget_index missing \<and>
           subgraph_id r = subgraph_id missing \<and>
           is_top_level r = is_top_level missing \<and>
           resolved_path r = path chosen)"
proof (rule conjI)
  from refs have n: "nodeRefs missing = refs" by (simp add: nodeRefs_def)
  from resolveModel_calls [OF wf, of srv missing chosen]
  obtain rest where "calls (resolveModel srv missing (Some chosen) st) =
      calls st @ Resolve workflow (map (mkResolution chosen) refs) # rest"
    and "resolveCalls rest = []" unfolding n by blast
  then show "\<exists>rs rest.
           calls (resolveModel srv missing (Some chosen) st) =
             calls st @ Resolve workflow rs # rest \<and>
           resolveCalls rest = [] \<and>
           length rs = length refs \<and>
           (\<forall>i<length refs.
              node_id (rs ! i) = node_id (refs ! i) \<and>
              widget_index (rs ! i) = widget_index (refs ! i) \<and>
              subgraph_id (rs ! i) = subgraph_id (refs ! i) \<and>
              is_top_level (rs ! i) = is_top_level (refs ! i) \<and>
              resolved_path (rs ! i) = path chosen)"
    by (intro exI[of _ "map (mkResolution chosen) refs"] exI[of _ rest])
       (simp add: mkResolution_def)
next
  from resolveModel_rev1_calls [OF wf, of srv missing chosen]
  obtain rest where "calls (resolveModel_rev1 srv missing (Some chosen) st) =
      calls st @ Resolve workflow [mkResolution chosen missing] # rest"
    and "resolveCalls rest = []" by blast
  then show "\<exists>r rest.
           calls (resolveModel_rev1 srv missing (Some chosen) st) =
             calls st @ Resolve workflow [r] # rest \<and>
           resolveCalls rest = [] \<and>
           node_id r = node_id missing \<and>
           widget_index r = widget_index missing \<and>
           subgraph_id r = subgraph_id missing \<and>
           is_top_level r = is_top_level missing \<and>
           resolved_path r = path chosen"
    by (intro exI[of _ "mkResolution chosen missing"] exI[of _ rest])
       (simp add: mkResolution_def)
qed

text \<open>
  Claim C2 as stated fails for the oldest \<open>resolveModel\<close>: for \<open>entryX\<close>, which has three
  references, the batch it sends holds one resolution, that of the entry's own node.
\<close>

theorem resolveModel_rev1_single_counterexample:
  "all_node_refs entryX = Some [refTop1, refTop2, refSub] \<and>
   app_graph client0 = Some 0 \<and>
   resolveCalls (calls (resolveModel_rev1 srvX entryX (Some modelX) client0)) =
     [(0, [mkResolution modelX refTop1])]"
  by (simp add: resolveModel_rev1_def getCurrentWorkflow_def srvX_def client0_def Let_def
      entryX_def mkResolution_def refTop1_def loadWorkflowData_rev1_def showNotification_def
      updateWorkflowInComfyUI_def resolveCalls_def)


theorem resolveModel_covers_all_refs_witness:
  "all_node_refs entryX = Some [refTop1, refTop2, refSub] \<and>
   app_graph client0 = Some 0 \<and>
   (\<exists>rs rest. calls (resolveModel srvX entryX (Some modelX) client0) =
                 calls client0 @ Resolve 0 rs # rest \<and>
               length rs = 3 \<and>
               node_id (rs ! 2) = 2 \<and> widget_index (rs ! 2) = 1 \<and>
               subgraph_id (rs ! 2) = Some ''sg-1'' \<and> is_top_level (rs ! 2) = False \<and>
               resolved_path (rs ! 2) = ''checkpoints/sub/x.safetensors'') \<and>
   (\<exists>r rest. calls (resolveModel_rev1 srvX entryX (Some modelX) client0) =
                 calls client0 @ Resolve 0 [r] # rest \<and>
               node_id r = 4 \<and> widget_index r = 0 \<and>
               resolved_path r = ''checkpoints/sub/x.safetensors'')"
proof -
  have a: "all_node_refs entryX = Some [refTop1, refTop2, refSub]" by (simp add: entryX_def)
  have b: "app_graph client0 = Some 0" by (simp add: client0_def)
  note both = resolveModel_covers_all_refs [OF a b, of srvX modelX]
  from both
  obtain rs rest where c: "calls (resolveModel srvX entryX (Some modelX) client0) =
             calls client0 @ Resolve 0 rs # rest"
    and l: "length rs = length [refTop1, refTop2, refSub]"
    and f: "\<forall>i<length [refTop1, refTop2, refSub].
              node_id (rs ! i) = node_id ([refTop1, refTop2, refSub] ! i) \<and>
              widget_index (rs ! i) = widget_index ([refTop1, refTop2, refSub] ! i) \<and>
              subgraph_id (rs ! i) = subgraph_id ([refTop1, refTop2, refSub] ! i) \<and>
              is_top_level (rs ! i) = is_top_level ([refTop1, refTop2, refSub] ! i) \<and>
              resolved_path (rs ! i) = path modelX"
    by blast
  from f have "node_id (rs ! 2) = 2 \<and> widget_index (rs ! 2) = 1 \<and>
               subgraph_id (rs ! 2) = Some ''sg-1'' \<and> is_top_level (rs ! 2) = False \<and>
               resolved_path (rs ! 2) = ''checkpoints/sub/x.safetensors''"
    by (simp add: refSub_def modelX_def)
  with c l have 1: "\<exists>rs rest. calls (resolveModel srvX entryX (Some modelX) client0) =
                 calls client0 @ Resolve 0 rs # rest \<and>
               length rs = 3 \<and>
               node_id (rs ! 2) = 2 \<and> widget_index (rs ! 2) = 1 \<and>
               subgraph_id (rs ! 2) = Some ''sg-1'' \<and> is_top_level (rs ! 2) = False \<and>
               resolved_path (rs ! 2) = ''checkpoints/sub/x.safetensors''"
    by auto
  from both
  obtain r rest' where "calls (resolveModel_rev1 srvX entryX (Some modelX) client0) =
             calls client0 @ Resolve 0 [r] # rest'"
    and "node_id r = node_id entryX" and "widget_index r = widget_index entryX"
    and "resolved_path r = path modelX"
    by blast
  then have 2: "\<exists>r rest. calls (resolveModel_rev1 srvX entryX (Some modelX) client0) =
                 calls client0 @ Resolve 0 [r] # rest \<and>
               node_id r = 4 \<and> widget_index r = 0 \<and>
               resolved_path r = ''checkpoints/sub/x.safetensors''"
    by (auto simp: entryX_def modelX_def)
  from a b 1 2 show ?thesis by simp
qed

text \<open>
  Claim C4 asks of the bulk auto-resolution one patch for each reference of every entry with
  a confidence-100 candidate. The loop of \<open>autoResolve100Percent\<close> builds one resolution
  for such an entry, from the entry's own node id and widget index: for \<open>entryX\<close>, which
  has three references, the batch sent holds the single resolution of its first reference.
\<close>

theorem autoResolve100Percent_single_patch:
  "all_node_refs entryX = Some [refTop1, refTop2, refSub] \<and>
   resolveCalls (calls (snd (autoResolve100Percent srvX client0))) =
     [(0, [mkResolution modelX refTop1])]"
  by (simp add: autoResolve100Percent_def getCurrentWorkflow_def srvX_def client0_def Let_def
      perfectResolutions_def or_empty_def entryX_def match90_def match100_def
      mkResolution_def refTop1_def loadWorkflowData_def showNotification_def
      updateWorkflowInComfyUI_def resolveCalls_def)

lemma length_perfectResolutions: "length (perfectResolutions ms) \<le> length ms"
  by (induction ms) (auto simp: perfectResolutions_def split: option.splits)

section \<open>Applying a batch\<close>

lemma targetExists_patchOne: "targetExists (patchOne g p) q = targetExists g q"
  by (auto simp: targetExists_def patchOne_def split: option.splits)

lemma widgetAt_patchOne:
  "targetExists g p \<Longrightarrow>
   widgetAt (patchOne g p) k i =
     (if k = patchKey p \<and> i = widget_index p then Some (resolved_path p) else widgetAt g k i)"
  by (auto simp: targetExists_def patchOne_def widgetAt_def split: option.splits)

lemma targetExists_foldl: "targetExists (foldl patchOne g ps) q = targetExists g q"
  by (induction ps arbitrary: g) (simp_all add: targetExists_patchOne)

lemma widgetAt_foldl_untouched:
  "\<forall>p\<in>set ps. targetExists g p \<Longrightarrow>
   \<forall>p\<in>set ps. \<not> (patchKey p = k \<and> widget_index p = i) \<Longrightarrow>
   widgetAt (foldl patchOne g ps) k i = widgetAt g k i"
proof (induction ps rule: rev_induct)
  case Nil
  then show ?case by simp
next
  case (snoc p ps)
  from snoc.prems have ex: "targetExists (foldl patchOne g ps) p"
    by (simp add: targetExists_foldl)
  from snoc.prems have other: "\<not> (k = patchKey p \<and> i = widget_index p)" by auto
  from snoc have ih: "widgetAt (foldl patchOne g ps) k i = widgetAt g k i" by simp
  have "widgetAt (foldl patchOne g (ps @ [p])) k i = widgetAt (foldl patchOne g ps) k i"
    using other by (auto simp: widgetAt_patchOne [OF ex])
  with ih show ?case by simp
qed

lemma widgetAt_foldl_patched:
  "\<forall>p\<in>set ps. targetExists g p \<Longrightarrow> p \<in> set ps \<Longrightarrow>
   \<exists>q\<in>set ps. patchKey q = patchKey p \<and> widget_index q = widget_index p \<and>
     widgetAt (foldl patchOne g ps) (patchKey p) (widget_index p) = Some (resolved_path q)"
proof (induction ps rule: rev_induct)
  case Nil
  then show ?case by simp
next
  case (snoc x xs)
  then have ex: "targetExists (foldl patchOne g xs) x" by (simp add: targetExists_foldl)
  show ?case
  proof (cases "patchKey x = patchKey p \<and> widget_index x = widget_index p")
    case True
    with ex show ?thesis by (intro bexI[of _ x]) (simp_all add: widgetAt_patchOne)
  next
    case False
    with snoc.prems have "p \<in> set xs" by auto
    with snoc obtain q where "q \<in> set xs" "patchKey q = patchKey p"
      "widget_index q = widget_index p"
      "widgetAt (foldl patchOne g xs) (patchKey p) (widget_index p) = Some (resolved_path q)"
      by auto
    with False ex show ?thesis by (intro bexI[of _ q]) (auto simp: widgetAt_patchOne)
  qed
qed

lemma applyPatches_cases:
  "(applyPatches g ps = Inr (foldl patchOne g ps) \<and> (\<forall>p\<in>set ps. targetExists g p)) \<or>
   (\<exists>p\<in>set ps. \<not> targetExists g p \<and>
      applyPatches g ps = Inl (UnknownReference (node_id p) (widget_index p) (subgraph_id p)))"
proof (cases "find (\<lambda>p. \<not> targetExists g p) ps")
  case None
  then have "\<forall>p\<in>set ps. targetExists g p" by (auto simp: find_None_iff)
  moreover from None have "applyPatches g ps = Inr (foldl patchOne g ps)"
    by (simp add: applyPatches_def)
  ultimately show ?thesis by blast
next
  case (Some p)
  then have "p \<in> set ps" "\<not> targetExists g p" by (auto simp: find_Some_iff)
  with Some show ?thesis by (auto simp: applyPatches_def)
qed

lemma describeError_nonempty: "describeError e \<noteq> []"
  by (cases e) (simp add: describeError_def)

lemma or_unknown_describeError: "or_unknown (Some (describeError e)) = describeError e"
  by (simp add: or_unknown_def describeError_nonempty)

lemma notifications_loadWorkflowData [simp]:
  "notifications (loadWorkflowData srv wo st) = notifications st"
  by (simp add: loadWorkflowData_def Let_def split: option.splits analyze_response.splits)

lemma resolveModel_graph:
  assumes wf: "app_graph st = Some g" and srv: "resolve srv = resolveEndpoint"
  shows "app_graph (resolveModel srv missing (Some chosen) st) =
           (case applyPatches g (map (mkResolution chosen) (nodeRefs missing)) of
              Inl e \<Rightarrow> Some g | Inr g' \<Rightarrow> Some g')"
    and "applyPatches g (map (mkResolution chosen) (nodeRefs missing)) = Inl e \<Longrightarrow>
         notifications (resolveModel srv missing (Some chosen) st) =
           notifications st @ [FailedToResolveModel (describeError e)]"
  using wf srv
  by (auto simp: resolveModel_def getCurrentWorkflow_def Let_def resolveEndpoint_def
      updateWorkflowInComfyUI_def showNotification_def or_unknown_describeError
      split: sum.splits)

text \<open>
  Claim C5. For every batch, the resolve operation either succeeds with a graph in which
  every slot named by a patch holds the path of a patch of the batch for that slot and
  every other slot is as before, or it is rejected with an error that identifies a patch
  of the batch whose node or widget is not in the graph. The client replaces its workflow
  by the returned graph on success only: after a rejected or failed request the workflow
  is the one it had, and the rejection's error is shown.
\<close>

theorem resolve_batch_all_or_nothing:
  fixes g :: graph
  assumes wf: "app_graph st = Some g" and srv: "resolve srv = resolveEndpoint"
  shows
   "((\<exists>g'. resolveEndpoint g patches = ResolveSuccess g' \<and>
        (\<forall>p\<in>set patches. \<exists>q\<in>set patches.
            patchKey q = patchKey p \<and> widget_index q = widget_index p \<and>
            widgetAt g' (patchKey p) (widget_index p) = Some (resolved_path q)) \<and>
        (\<forall>k i. (\<forall>p\<in>set patches. \<not> (patchKey p = k \<and> widget_index p = i)) \<longrightarrow>
            widgetAt g' k i = widgetAt g k i)) \<or>
     (\<exists>p\<in>set patches. \<not> targetExists g p \<and>
        resolveEndpoint g patches =
          ResolveRejected (Some (describeError
             (UnknownReference (node_id p) (widget_index p) (subgraph_id p)))))) \<and>
    (let batch = map (mkResolution chosen) (nodeRefs missing);
         st' = resolveModel srv missing (Some chosen) st
     in case resolveEndpoint g batch of
          ResolveSuccess g' \<Rightarrow> app_graph st' = Some g'
        | ResolveRejected err \<Rightarrow>
            app_graph st' = Some g \<and>
            notifications st' = notifications st @ [FailedToResolveModel (or_unknown err)]
        | ResolveFailed \<Rightarrow> app_graph st' = Some g)"
proof (rule conjI)
  from applyPatches_cases [of g patches]
  show "(\<exists>g'. resolveEndpoint g patches = ResolveSuccess g' \<and>
        (\<forall>p\<in>set patches. \<exists>q\<in>set patches.
            patchKey q = patchKey p \<and> widget_index q = widget_index p \<and>
            widgetAt g' (patchKey p) (widget_index p) = Some (resolved_path q)) \<and>
        (\<forall>k i. (\<forall>p\<in>set patches. \<not> (patchKey p = k \<and> widget_index p = i)) \<longrightarrow>
            widgetAt g' k i = widgetAt g k i)) \<or>
     (\<exists>p\<in>set patches. \<not> targetExists g p \<and>
        resolveEndpoint g patches =
          ResolveRejected (Some (describeError
             (UnknownReference (node_id p) (widget_index p) (subgraph_id p)))))"
  proof
    assume ok: "applyPatches g patches = Inr (foldl patchOne g patches) \<and>
                (\<forall>p\<in>set patches. targetExists g p)"
    then have "resolveEndpoint g patches = ResolveSuccess (foldl patchOne g patches)"
      by (simp add: resolveEndpoint_def)
    moreover from ok have "\<forall>p\<in>set patches. \<exists>q\<in>set patches.
            patchKey q = patchKey p \<and> widget_index q = widget_index p \<and>
            widgetAt (foldl patchOne g patches) (patchKey p) (widget_index p) = Some (resolved_path q)"
      using widgetAt_foldl_patched by blast
    moreover from ok have "\<forall>k i. (\<forall>p\<in>set patches. \<not> (patchKey p = k \<and> widget_index p = i)) \<longrightarrow>
            widgetAt (foldl patchOne g patches) k i = widgetAt g k i"
      using widgetAt_foldl_untouched by blast
    ultimately show ?thesis by blast
  next
    assume "\<exists>p\<in>set patches. \<not> targetExists g p \<and>
      applyPatches g patches = Inl (UnknownReference (node_id p) (widget_index p) (subgraph_id p))"
    then obtain p where "p \<in> set patches" "\<not> targetExists g p"
      "applyPatches g patches = Inl (UnknownReference (node_id p) (widget_index p) (subgraph_id p))"
      by blast
    then show ?thesis by (intro disjI2 bexI[of _ p]) (simp_all add: resolveEndpoint_def)
  qed
next
  show "let batch = map (mkResolution chosen) (nodeRefs missing);
         st' = resolveModel srv missing (Some chosen) st
     in case resolveEndpoint g batch of
          ResolveSuccess g' \<Rightarrow> app_graph st' = Some g'
        | ResolveRejected err \<Rightarrow>
            app_graph st' = Some g \<and>
            notifications st' = notifications st @ [FailedToResolveModel (or_unknown err)]
        | ResolveFailed \<Rightarrow> app_graph st' = Some g"
    using wf srv
    by (auto simp: resolveModel_def getCurrentWorkflow_def Let_def
      updateWorkflowInComfyUI_def showNotification_def
      split: resolve_response.splits)
qed

lemma nodeRefs_entryX: "map (mkResolution modelX) (nodeRefs entryX) =
   [mkResolution modelX refTop1, mkResolution modelX refTop2, mkResolution modelX refSub]"
  by (simp add: nodeRefs_def entryX_def)

lemma apply_G: "resolveEndpoint graphG (map (mkResolution modelX) (nodeRefs entryX)) =
   ResolveSuccess (foldl patchOne graphG (map (mkResolution modelX) (nodeRefs entryX)))"
  unfolding nodeRefs_entryX
  by (simp add: resolveEndpoint_def applyPatches_def targetExists_def patchKey_def
      mkResolution_def refTop1_def refTop2_def refSub_def graphG_def)

lemma apply_H: "resolveEndpoint graphH (map (mkResolution modelX) (nodeRefs entryX)) =
   ResolveRejected (Some ''Unknown reference: node 9 widget 0'')"
  unfolding nodeRefs_entryX
  by (simp add: resolveEndpoint_def applyPatches_def targetExists_def patchKey_def
      mkResolution_def refTop1_def refTop2_def refSub_def graphH_def describeError_def
      showNat.simps [of 9] showNat.simps [of 0])

lemma widget_G: "widgetAt (foldl patchOne graphG (map (mkResolution modelX) (nodeRefs entryX)))
    (2, Some ''sg-1'') 1 = Some ''checkpoints/sub/x.safetensors''"
  unfolding nodeRefs_entryX
  by (simp add: patchOne_def patchKey_def widgetAt_def
      mkResolution_def refTop1_def refTop2_def refSub_def graphG_def modelX_def)


theorem resolve_batch_all_or_nothing_witness:
  "app_graph (clientOf graphG) = Some graphG \<and> resolve srvG = resolveEndpoint \<and>
   (\<exists>g'. app_graph (resolveModel srvG entryX (Some modelX) (clientOf graphG)) = Some g' \<and>
      widgetAt g' (2, Some ''sg-1'') 1 = Some ''checkpoints/sub/x.safetensors'') \<and>
   app_graph (resolveModel srvG entryX (Some modelX) (clientOf graphH)) = Some graphH \<and>
   notifications (resolveModel srvG entryX (Some modelX) (clientOf graphH)) =
     [FailedToResolveModel ''Unknown reference: node 9 widget 0'']"
proof -
  have g: "app_graph (clientOf graphG) = Some graphG"
    and h: "app_graph (clientOf graphH) = Some graphH"
    and r: "resolve srvG = resolveEndpoint"
    by (simp_all add: clientOf_def srvG_def)
  from resolve_batch_all_or_nothing [OF g r, of "[]" modelX entryX]
  have "app_graph (resolveModel srvG entryX (Some modelX) (clientOf graphG)) =
          Some (foldl patchOne graphG (map (mkResolution modelX) (nodeRefs entryX)))"
    by (simp add: Let_def apply_G)
  with widget_G
  have 1: "\<exists>g'. app_graph (resolveModel srvG entryX (Some modelX) (clientOf graphG)) = Some g' \<and>
      widgetAt g' (2, Some ''sg-1'') 1 = Some ''checkpoints/sub/x.safetensors''"
    by simp
  from resolve_batch_all_or_nothing [OF h r, of "[]" modelX entryX]
  have 2: "app_graph (resolveModel srvG entryX (Some modelX) (clientOf graphH)) = Some graphH \<and>
    notifications (resolveModel srvG entryX (Some modelX) (clientOf graphH)) =
     [FailedToResolveModel ''Unknown reference: node 9 widget 0'']"
    by (simp add: Let_def apply_H or_unknown_def clientOf_def)
  from g r 1 2 show ?thesis by simp
qed

section \<open>Polling a download\<close>

lemma map_of_delete_same: "map_of (AList.delete k al) k = None"
  by (simp add: AList.delete_eq map_of_eq_None_iff image_iff)

lemma map_of_delete_other: "d \<noteq> k \<Longrightarrow> map_of (AList.delete k al) d = map_of al d"
  by (induction al) (auto simp: AList.delete_eq)


lemma pollsFor_append: "pollsFor d (ts @ us) = pollsFor d ts @ pollsFor d us"
  by (simp add: pollsFor_def)

text \<open>
  Claim C7, amended. For a tracked job, a poll that observes one of the statuses
  \<open>completed\<close>, \<open>error\<close>, \<open>cancelled\<close> removes the job from \<open>activeDownloads\<close> and
  schedules no poll for it; so does a poll whose request fails. A poll that observes any
  other status keeps the job and schedules one more poll for it. Hence a poll evicts the
  job exactly when it observed a terminal status or its request failed; no other job is
  touched.
\<close>

theorem poll_evicts_on_terminal_or_failure:
  assumes tracked: "map_of (activeDownloads st) downloadId = Some missing"
  shows "let st' = pollDownloadProgress response downloadId st in
           (map_of (activeDownloads st') downloadId = None \<longleftrightarrow>
              observedTerminal response \<or> response = ProgressFailed) \<and>
           (observedTerminal response \<or> response = ProgressFailed \<longrightarrow>
              pollsFor downloadId (timers st') = pollsFor downloadId (timers st)) \<and>
           (\<not> (observedTerminal response \<or> response = ProgressFailed) \<longrightarrow>
              map_of (activeDownloads st') downloadId = Some missing \<and>
              (\<exists>ms. timers st' = timers st @ [PollTimer downloadId ms])) \<and>
           (\<forall>d. d \<noteq> downloadId \<longrightarrow>
              map_of (activeDownloads st') d = map_of (activeDownloads st) d)"
proof (cases response)
  case ProgressFailed
  with tracked show ?thesis
    by (simp add: pollDownloadProgress_def Let_def observedTerminal_def
        map_of_delete_same map_of_delete_other)
next
  case (ProgressOk p)
  consider (run) "status p = ''downloading'' \<or> status p = ''starting''"
    | (completed) "status p = ''completed''"
    | (error) "status p = ''error''"
    | (cancelled) "status p = ''cancelled''"
    | (other) "status p \<noteq> ''downloading''" "status p \<noteq> ''starting''" "\<not> isTerminal (status p)"
    by (auto simp: isTerminal_def)
  then show ?thesis
  proof cases
    case run
    then have "\<not> isTerminal (status p)" by (auto simp: isTerminal_def)
    with run ProgressOk tracked show ?thesis
      by (auto simp: pollDownloadProgress_def Let_def observedTerminal_def)
  next
    case completed
    then have "isTerminal (status p)" by (simp add: isTerminal_def)
    with completed ProgressOk tracked show ?thesis
      by (simp add: pollDownloadProgress_def Let_def observedTerminal_def showNotification_def
          map_of_delete_same map_of_delete_other pollsFor_append) (simp add: pollsFor_def)
  next
    case error
    then have "isTerminal (status p)" by (simp add: isTerminal_def)
    with error ProgressOk tracked show ?thesis
      by (simp add: pollDownloadProgress_def Let_def observedTerminal_def
          map_of_delete_same map_of_delete_other)
  next
    case cancelled
    then have "isTerminal (status p)" by (simp add: isTerminal_def)
    with cancelled ProgressOk tracked show ?thesis
      by (simp add: pollDownloadProgress_def Let_def observedTerminal_def showNotification_def
          map_of_delete_same map_of_delete_other)
  next
    case other
    then have "status p \<noteq> ''completed''" "status p \<noteq> ''error''" "status p \<noteq> ''cancelled''"
      by (auto simp: isTerminal_def)
    with other ProgressOk tracked show ?thesis
      by (simp add: pollDownloadProgress_def Let_def observedTerminal_def)
  qed
qed

text \<open>
  Claim C7 as stated ("evicted exactly when a terminal state has been observed") fails:
  a poll whose request fails observes no status and evicts the job.
\<close>

theorem poll_failure_evicts_counterexample:
  "map_of (activeDownloads clientD) ''job-1'' = Some entryDup \<and>
   \<not> observedTerminal ProgressFailed \<and>
   map_of (activeDownloads (pollDownloadProgress ProgressFailed ''job-1'' clientD)) ''job-1'' = None"
  by (simp add: clientD_def pollDownloadProgress_def observedTerminal_def AList.delete_eq)

theorem poll_evicts_on_terminal_or_failure_witness:
  "map_of (activeDownloads clientD) ''job-1'' = Some entryDup \<and>
   map_of (activeDownloads (pollDownloadProgress (ProgressOk progressDone) ''job-1'' clientD))
     ''job-1'' = None \<and>
   map_of (activeDownloads (pollDownloadProgress (ProgressOk progressRunning) ''job-1'' clientD))
     ''job-1'' = Some entryDup"
proof -
  have t: "map_of (activeDownloads clientD) ''job-1'' = Some entryDup"
    by (simp add: clientD_def)
  have d: "observedTerminal (ProgressOk progressDone)"
    by (simp add: observedTerminal_def isTerminal_def progressDone_def)
  have r: "\<not> observedTerminal (ProgressOk progressRunning)"
    by (simp add: observedTerminal_def isTerminal_def progressRunning_def)
  from poll_evicts_on_terminal_or_failure [OF t, of "ProgressOk progressDone"] d
  have 1: "map_of (activeDownloads (pollDownloadProgress (ProgressOk progressDone) ''job-1'' clientD))
     ''job-1'' = None"
    by (simp add: Let_def)
  from poll_evicts_on_terminal_or_failure [OF t, of "ProgressOk progressRunning"] r
  have 2: "map_of (activeDownloads (pollDownloadProgress (ProgressOk progressRunning) ''job-1'' clientD))
     ''job-1'' = Some entryDup"
    by (simp add: Let_def)
  from t 1 2 show ?thesis by simp
qed



section \<open>After a download completes\<close>

lemma app_graph_startTracking [simp]: "app_graph (startTracking d m st) = app_graph st"
  by (simp add: startTracking_def)

lemma app_graph_downloadModel [simp]: "app_graph (downloadModel response missing st) = app_graph st"
  by (simp add: downloadModel_def Let_def split: option.splits download_response.splits)

lemma app_graph_downloadFromSearch [simp]:
  "app_graph (downloadFromSearch response missing u f c st) = app_graph st"
  by (simp add: downloadFromSearch_def Let_def split: download_response.splits)

lemma app_graph_cancelDownload [simp]: "app_graph (cancelDownload ok d st) = app_graph st"
  by (simp add: cancelDownload_def Let_def)

lemma app_graph_cancelAllDownloads [simp]: "app_graph (cancelAllDownloads st) = app_graph st"
  by (simp add: cancelAllDownloads_def Let_def)

lemma app_graph_fold_downloadModel:
  "app_graph (fold (\<lambda>missing. downloadModel (responses missing) missing) ms st) = app_graph st"
  by (induction ms arbitrary: st) simp_all

lemma app_graph_downloadAllMissing [simp]:
  "app_graph (downloadAllMissing srv responses st) = app_graph st"
  by (simp add: downloadAllMissing_def Let_def app_graph_fold_downloadModel
      split: option.splits analyze_response.splits)















section \<open>Units of formatBytes\<close>

lemma sizeIndex_log: "sizeIndex b = \<lfloor>log 1024 (real b)\<rfloor>"
  by (simp add: sizeIndex_def log_def)

lemma sizeIndex_ge:
  assumes "1024 ^ i \<le> b"
  shows "int i \<le> sizeIndex b"
proof -
  from assms have pos: "0 < real b"
    by (metis of_nat_0_less_iff zero_less_numeral zero_less_power less_le_trans)
  from assms have "(1024::real) ^ i \<le> real b"
    by (metis of_nat_le_iff of_nat_numeral of_nat_power)
  then have "(1024::real) powr real i \<le> real b" by (simp add: powr_realpow)
  with pos have "real i \<le> log 1024 (real b)" by (simp add: le_log_iff)
  then show ?thesis unfolding sizeIndex_log by (simp add: le_floor_iff)
qed

lemma sizeIndex_less:
  assumes "0 < b" "b < 1024 ^ i"
  shows "sizeIndex b < int i"
proof -
  from assms have "real b < (1024::real) ^ i"
    by (metis of_nat_less_iff of_nat_numeral of_nat_power)
  then have "real b < (1024::real) powr real i" by (simp add: powr_realpow)
  with assms(1) have "log 1024 (real b) < real i" by (simp add: log_less_iff)
  then show ?thesis unfolding sizeIndex_log by (simp add: floor_less_iff)
qed

lemma sizeIndex_eq: "1024 ^ i \<le> b \<Longrightarrow> b < 1024 ^ Suc i \<Longrightarrow> sizeIndex b = int i"
proof -
  assume a: "1024 ^ i \<le> b" and b: "b < 1024 ^ Suc i"
  from a have "0 < b" by (metis zero_less_numeral zero_less_power less_le_trans)
  from this b have "sizeIndex b < int (Suc i)" by (rule sizeIndex_less)
  with sizeIndex_ge [OF a] show ?thesis by simp
qed

lemma sizeUnit_valid: "0 \<le> i \<Longrightarrow> i < 4 \<Longrightarrow> sizeUnit i \<in> {''B'', ''KB'', ''MB'', ''GB''}"
proof -
  assume "0 \<le> i" "i < 4"
  then have "i = 0 \<or> i = 1 \<or> i = 2 \<or> i = 3" by arith
  then show ?thesis by (auto simp: sizeUnit_def sizes_def)
qed

text \<open>
  Claim C10. \<open>formatBytes(0)\<close> is \<open>0 B\<close>. For a byte count from 1 up to, not including,
  \<open>1024^4\<close> the unit printed is one of B, KB, MB, GB. From \<open>1024^4\<close> on, the size index
  is 4 or more, outside the four-element array, and the unit printed is \<open>undefined\<close>.
\<close>

theorem formatBytes_units:
  "formatBytes 0 = (0, ''B'') \<and>
   (1 \<le> b \<and> b < 1024 ^ 4 \<longrightarrow> snd (formatBytes b) \<in> {''B'', ''KB'', ''MB'', ''GB''}) \<and>
   (1024 ^ 4 \<le> b \<longrightarrow> snd (formatBytes b) = ''undefined'')"
proof (intro conjI impI)
  show "formatBytes 0 = (0, ''B'')" by (simp add: formatBytes_def)
next
  assume h: "1 \<le> b \<and> b < 1024 ^ 4"
  then have "1024 ^ 0 \<le> b" by simp
  then have "0 \<le> sizeIndex b" using sizeIndex_ge [of 0 b] by simp
  moreover from h have "sizeIndex b < 4" using sizeIndex_less [of b 4] by simp
  ultimately have "sizeUnit (sizeIndex b) \<in> {''B'', ''KB'', ''MB'', ''GB''}"
    by (rule sizeUnit_valid)
  with h show "snd (formatBytes b) \<in> {''B'', ''KB'', ''MB'', ''GB''}"
    by (simp add: formatBytes_def Let_def)
next
  assume h: "1024 ^ 4 \<le> b"
  then have "4 \<le> sizeIndex b" using sizeIndex_ge [of 4 b] by simp
  then have "sizeUnit (sizeIndex b) = ''undefined''" by (simp add: sizeUnit_def sizes_def)
  moreover from h have "b \<noteq> 0" by auto
  ultimately show "snd (formatBytes b) = ''undefined''"
    by (simp add: formatBytes_def Let_def)
qed

theorem formatBytes_units_witness:
  "(1::nat) \<le> 1536 \<and> (1536::nat) < 1024 ^ 4 \<and>
   snd (formatBytes 1536) \<in> {''B'', ''KB'', ''MB'', ''GB''} \<and>
   (1024::nat) ^ 4 \<le> 1024 ^ 4 \<and>
   snd (formatBytes (1024 ^ 4)) = ''undefined''"
  using formatBytes_units [of 1536] formatBytes_units [of "1024 ^ 4"]
  by simp

text \<open>Two values in full: 1536 bytes print as 1.5 KB, one tebibyte as 1 undefined.\<close>

lemma formatBytes_1536: "formatBytes 1536 = (3 / 2, ''KB'')"
proof -
  have "sizeIndex 1536 = int 1" by (rule sizeIndex_eq) simp_all
  then show ?thesis by (simp add: formatBytes_def Let_def sizeUnit_def sizes_def toFixed1_def)
qed

lemma formatBytes_tebibyte: "formatBytes (1024 ^ 4) = (1, ''undefined'')"
proof -
  have "sizeIndex (1024 ^ 4) = int 4" by (rule sizeIndex_eq) simp_all
  then show ?thesis by (simp add: formatBytes_def Let_def sizeUnit_def sizes_def toFixed1_def)
qed

end
